theory Spec2Isabelle
  imports Complex_Main "HOL-Library.Sublist"
begin

section \<open>Shared data: stations and routes\<close>

text \<open>
  The repository holds two proof-of-concept detectors: a motion detector (accelerometer
  variance with a stop-confirmation gate) and an audio detector (speech matching and door
  chime detection). Both build their route with the same helper \<open>getStationsOnRoute\<close>.

  Numbers: JavaScript numbers are modelled as \<open>real\<close> where they are sensor readings or
  statistics (magnitudes, variance, decibel levels), as \<open>int\<close> where they are millisecond
  timestamps of \<open>Date.now()\<close>, and as \<open>nat\<close> where they are counters that start at zero
  and are only incremented. Strings are ASCII strings.
\<close>

datatype LineId = mrt_blue | bts_sukhumvit | bts_silom | arl

record Station =
  st_id :: string
  st_name :: string
  st_line :: LineId
  st_lat :: real
  st_lng :: real

text \<open>\<open>Array.prototype.findIndex\<close>: the first index whose element satisfies the
  predicate, or \<open>-1\<close>.\<close>

fun findIndex :: "('a \<Rightarrow> bool) \<Rightarrow> 'a list \<Rightarrow> int" where
  "findIndex P [] = -1"
| "findIndex P (x # xs) =
     (if P x then 0 else (let r = findIndex P xs in if r = -1 then -1 else r + 1))"

text \<open>\<open>Array.prototype.slice(start, end)\<close> with its treatment of negative and
  out-of-range bounds.\<close>

definition slice :: "'a list \<Rightarrow> int \<Rightarrow> int \<Rightarrow> 'a list" where
  "slice xs start end =
     (let n = int (length xs);
          a = (if start < 0 then max (n + start) 0 else min start n);
          b = (if end < 0 then max (n + end) 0 else min end n)
      in take (nat (b - a)) (drop (nat a) xs))"

text \<open>The static table \<open>stations\<close> of \<open>../data/stations\<close> is a parameter.\<close>

definition getStationsOnRoute :: "Station list \<Rightarrow> LineId \<Rightarrow> string \<Rightarrow> string \<Rightarrow> Station list" where
  "getStationsOnRoute stations lineId originId destinationId =
     (let lineStations = filter (\<lambda>s. st_line s = lineId) stations;
          originIdx = findIndex (\<lambda>s. st_id s = originId) lineStations;
          destIdx = findIndex (\<lambda>s. st_id s = destinationId) lineStations
      in if originIdx = -1 \<or> destIdx = -1 then []
         else if originIdx < destIdx then slice lineStations originIdx (destIdx + 1)
         else rev (slice lineStations destIdx (originIdx + 1)))"

section \<open>Motion detector\<close>

datatype MotionState = idle | moving | stopped

record DetectedStop =
  ds_index :: nat
  ds_stationName :: string
  ds_time :: int

definition WINDOW_SIZE :: nat where "WINDOW_SIZE = 60"
definition STOP_THRESHOLD :: real where "STOP_THRESHOLD = 3 / 10"
definition MOVE_THRESHOLD :: real where "MOVE_THRESHOLD = 5 / 10"
definition MIN_STOP_DURATION :: nat where "MIN_STOP_DURATION = 8"
definition MIN_MOVE_DURATION :: nat where "MIN_MOVE_DURATION = 10"
definition MIN_STOP_MS :: int where "MIN_STOP_MS = 15000"
definition MIN_GAP_MS :: int where "MIN_GAP_MS = 60000"

text \<open>
  The component's React state and refs. \<open>ds_time\<close> of a detected stop holds the raw
  timestamp that the source passes to \<open>formatTime\<close>.
\<close>

record motion =
  selectedLine :: LineId
  originId :: string
  destinationId :: string
  running :: bool
  permissionGranted :: "bool option"
  motionState :: MotionState
  variance :: real
  detectedStops :: "DetectedStop list"
  routeStations :: "Station list"
  sampleRate :: nat
  ignoredStops :: nat
  bufferRef :: "real list"
  stateRef :: MotionState
  stateCounterRef :: nat
  stopCountRef :: nat
  routeRef :: "Station list"
  sampleCountRef :: nat
  lastSampleTimeRef :: int
  stopStartTimeRef :: int
  lastConfirmedStopRef :: int
  pendingStopRef :: bool

text \<open>Decimal rendering of a counter, as a template literal does.\<close>

fun digitChar :: "nat \<Rightarrow> char" where
  "digitChar n = char_of (48 + n)"

fun showNat :: "nat \<Rightarrow> string" where
  "showNat n = (if n < 10 then [digitChar n] else showNat (n div 10) @ [digitChar (n mod 10)])"

declare showNat.simps [simp del]

text \<open>The component as first rendered: the initial values of \<open>useState\<close> and \<open>useRef\<close>.\<close>

definition initialMotion :: motion where
  "initialMotion =
     \<lparr> selectedLine = mrt_blue, originId = [], destinationId = [], running = False,
       permissionGranted = None, motionState = idle, variance = 0, detectedStops = [],
       routeStations = [], sampleRate = 0, ignoredStops = 0, bufferRef = [],
       stateRef = idle, stateCounterRef = 0, stopCountRef = 0, routeRef = [],
       sampleCountRef = 0, lastSampleTimeRef = 0, stopStartTimeRef = 0,
       lastConfirmedStopRef = 0, pendingStopRef = False \<rparr>"

text \<open>
  \<open>handleStart\<close>: \<open>granted\<close> is the outcome of the permission request, \<open>now\<close> the clock.
  The permission request records its outcome even when it is a refusal.
\<close>

definition handleStart :: "Station list \<Rightarrow> bool \<Rightarrow> int \<Rightarrow> motion \<Rightarrow> motion" where
  "handleStart stations granted now s =
     (if originId s = [] \<or> destinationId s = [] \<or> originId s = destinationId s then s
      else
        let s1 = s\<lparr>permissionGranted := Some granted\<rparr> in
        if \<not> granted then s1
        else
          let route = getStationsOnRoute stations (selectedLine s1) (originId s1) (destinationId s1)
          in s1\<lparr> routeStations := route, routeRef := route,
                 bufferRef := [], stateRef := idle, stateCounterRef := 0, stopCountRef := 0,
                 sampleCountRef := 0, lastSampleTimeRef := now, stopStartTimeRef := 0,
                 lastConfirmedStopRef := 0, pendingStopRef := False,
                 detectedStops := [], ignoredStops := 0, motionState := idle,
                 variance := 0, running := True \<rparr>)"

definition handleStop :: "motion \<Rightarrow> motion" where
  "handleStop s = s\<lparr>running := False, motionState := idle\<rparr>"

text \<open>
  The station assigned to the stop with index \<open>stopIdx\<close>: the conditional expression
  that \<open>confirmStop\<close> binds to \<open>stationName\<close>.
\<close>

definition stationNameAt :: "Station list \<Rightarrow> nat \<Rightarrow> string" where
  "stationNameAt route stopIdx =
     (if stopIdx < length route then st_name (route ! stopIdx)
      else ''Stop #'' @ showNat (stopIdx + 1) @ '' (beyond route)'')"

text \<open>The stop-confirmation gate, the closure \<open>confirmStop\<close> of \<open>handleMotion\<close>.\<close>

definition confirmStop :: "int \<Rightarrow> motion \<Rightarrow> motion" where
  "confirmStop now s =
     (let stopTime = stopStartTimeRef s;
          duration = now - stopTime;
          gap = stopTime - lastConfirmedStopRef s;
          s1 = (if duration \<ge> MIN_STOP_MS \<and> (lastConfirmedStopRef s = 0 \<or> gap \<ge> MIN_GAP_MS)
                then
                  let stopIdx = stopCountRef s + 1;
                      route = routeRef s;
                      stationName = stationNameAt route stopIdx
                  in s\<lparr> stopCountRef := stopIdx, lastConfirmedStopRef := now,
                         pendingStopRef := False,
                         detectedStops := detectedStops s @
                           [\<lparr>ds_index = stopIdx, ds_stationName = stationName, ds_time = stopTime\<rparr>] \<rparr>
                else s\<lparr>ignoredStops := ignoredStops s + 1\<rparr>)
      in s1\<lparr>pendingStopRef := False\<rparr>)"

text \<open>Population variance of the window, with the two \<open>reduce\<close> passes of the source.\<close>

definition windowMean :: "real list \<Rightarrow> real" where
  "windowMean buffer = foldl (\<lambda>a b. a + b) 0 buffer / real (length buffer)"

definition windowVariance :: "real list \<Rightarrow> real" where
  "windowVariance buffer =
     foldl (\<lambda>a b. a + (b - windowMean buffer)\<^sup>2) 0 buffer / real (length buffer)"

text \<open>The state machine that follows \<open>setVariance(v)\<close> in \<open>handleMotion\<close>.\<close>

definition classify :: "real \<Rightarrow> int \<Rightarrow> motion \<Rightarrow> motion" where
  "classify v now s =
     (let prevState = stateRef s in
      if v < STOP_THRESHOLD then
        (if prevState \<noteq> stopped then
           let s1 = s\<lparr>stateCounterRef := stateCounterRef s + 1\<rparr> in
           if stateCounterRef s1 \<ge> MIN_STOP_DURATION then
             let s2 = s1\<lparr>stateRef := stopped, stateCounterRef := 0, motionState := stopped\<rparr> in
             if prevState = moving then s2\<lparr>stopStartTimeRef := now, pendingStopRef := True\<rparr>
             else s2
           else s1
         else
           let s1 = s\<lparr>stateCounterRef := 0\<rparr> in
           if pendingStopRef s1 \<and> now - stopStartTimeRef s1 \<ge> MIN_STOP_MS then confirmStop now s1
           else s1)
      else if v > MOVE_THRESHOLD then
        (if prevState \<noteq> moving then
           let s1 = s\<lparr>stateCounterRef := stateCounterRef s + 1\<rparr> in
           if stateCounterRef s1 \<ge> MIN_MOVE_DURATION then
             let s2 = (if pendingStopRef s1 then confirmStop now s1 else s1)
             in s2\<lparr>stateRef := moving, stateCounterRef := 0, motionState := moving\<rparr>
           else s1
         else s\<lparr>stateCounterRef := 0\<rparr>)
      else s)"

text \<open>
  \<open>handleMotion\<close> is split at its two early returns. \<open>pushSample\<close> is the part from
  \<open>buffer.push(magnitude)\<close> to \<open>buffer.shift()\<close>: the sample enters the window, the
  sample-rate bookkeeping runs, and the oldest sample leaves a window that has grown
  beyond \<open>WINDOW_SIZE\<close>.
\<close>

definition pushSample :: "real \<Rightarrow> int \<Rightarrow> motion \<Rightarrow> motion" where
  "pushSample magnitude now s =
     (let buffer1 = bufferRef s @ [magnitude];
          s1 = s\<lparr>sampleCountRef := sampleCountRef s + 1\<rparr>;
          s2 = (if now - lastSampleTimeRef s1 \<ge> 1000
                then s1\<lparr>sampleRate := sampleCountRef s1, sampleCountRef := 0,
                        lastSampleTimeRef := now\<rparr>
                else s1);
          buffer2 = (if length buffer1 > WINDOW_SIZE then tl buffer1 else buffer1)
      in s2\<lparr>bufferRef := buffer2\<rparr>)"

text \<open>Everything \<open>handleMotion\<close> does with a magnitude, after the null checks.\<close>

definition processSample :: "real \<Rightarrow> int \<Rightarrow> motion \<Rightarrow> motion" where
  "processSample magnitude now s =
     (let s3 = pushSample magnitude now s;
          buffer = bufferRef s3
      in if length buffer < WINDOW_SIZE then s3
         else
           let v = windowVariance buffer
           in classify v now (s3\<lparr>variance := v\<rparr>))"

text \<open>
  A \<open>devicemotion\<close> event: \<open>accelerationIncludingGravity\<close> may be null, and so may each of
  its axes; such an event is dropped.
\<close>

type_synonym acceleration = "real option \<times> real option \<times> real option"

fun handleMotion :: "acceleration option \<Rightarrow> int \<Rightarrow> motion \<Rightarrow> motion" where
  "handleMotion (Some (Some x, Some y, Some z)) now s =
     processSample (sqrt (x\<^sup>2 + y\<^sup>2 + z\<^sup>2)) now s"
| "handleMotion _ now s = s"

text \<open>The listener is attached only while the session is running.\<close>

definition onDeviceMotion :: "acceleration option \<times> int \<Rightarrow> motion \<Rightarrow> motion" where
  "onDeviceMotion e s = (if running s then handleMotion (fst e) (snd e) s else s)"

text \<open>A stream of events delivered in order.\<close>

definition deliver :: "(acceleration option \<times> int) list \<Rightarrow> motion \<Rightarrow> motion" where
  "deliver es s = foldl (\<lambda>t e. onDeviceMotion e t) s es"

section \<open>Audio detector: speech matching\<close>

definition toLowerChar :: "char \<Rightarrow> char" where
  "toLowerChar c =
     (let n = (of_char c :: nat) in if 65 \<le> n \<and> n \<le> 90 then char_of (n + 32) else c)"

definition toLowerCase :: "string \<Rightarrow> string" where
  "toLowerCase t = map toLowerChar t"

definition isSpace :: "char \<Rightarrow> bool" where
  "isSpace c = (let n = (of_char c :: nat) in n = 32 \<or> (9 \<le> n \<and> n \<le> 13))"

text \<open>\<open>String.prototype.includes\<close>: the pattern occurs as a contiguous substring.\<close>

fun startsWith :: "string \<Rightarrow> string \<Rightarrow> bool" where
  "startsWith t [] = True"
| "startsWith [] (p # ps) = False"
| "startsWith (c # cs) (p # ps) = (c = p \<and> startsWith cs ps)"

fun includesStr :: "string \<Rightarrow> string \<Rightarrow> bool" where
  "includesStr [] p = (p = [])"
| "includesStr (c # cs) p = (startsWith (c # cs) p \<or> includesStr cs p)"

text \<open>
  \<open>split(/\s+/)\<close>: the pieces between maximal runs of whitespace; leading or trailing
  whitespace gives an empty first or last piece.
\<close>

fun splitWord :: "string \<Rightarrow> string \<Rightarrow> string list"
  and splitGap :: "string \<Rightarrow> string list" where
  "splitWord [] cur = [cur]"
| "splitWord (c # cs) cur = (if isSpace c then cur # splitGap cs else splitWord cs (cur @ [c]))"
| "splitGap [] = [[]]"
| "splitGap (c # cs) = (if isSpace c then splitGap cs else splitWord cs [c])"

definition splitWhitespace :: "string \<Rightarrow> string list" where
  "splitWhitespace t = splitWord t []"

text \<open>\<open>String.prototype.trim\<close>.\<close>

definition trim :: "string \<Rightarrow> string" where
  "trim t = rev (dropWhile isSpace (rev (dropWhile isSpace t)))"

record StationKeywords =
  sk_id :: string
  sk_name :: string
  sk_keywords :: "string list"

definition buildStationKeywords :: "Station list \<Rightarrow> StationKeywords list" where
  "buildStationKeywords route =
     map (\<lambda>s. \<lparr> sk_id = st_id s, sk_name = st_name s,
                 sk_keywords = filter (\<lambda>w. length w \<ge> 3) (splitWhitespace (toLowerCase (st_name s))) \<rparr>)
         route"

text \<open>The inner loop of \<open>matchStationInText\<close> over the keywords of one station.\<close>

fun matchKeywords :: "string \<Rightarrow> string list \<Rightarrow> bool" where
  "matchKeywords lower [] = False"
| "matchKeywords lower (kw # kws) =
     (if length kw \<ge> 4 \<and> includesStr lower kw then True else matchKeywords lower kws)"

text \<open>The outer loop over the stations, already sorted.\<close>

fun matchLoop :: "string \<Rightarrow> StationKeywords list \<Rightarrow> StationKeywords option" where
  "matchLoop lower [] = None"
| "matchLoop lower (s # ss) =
     (if includesStr lower (toLowerCase (sk_name s)) then Some s
      else if matchKeywords lower (sk_keywords s) then Some s
      else matchLoop lower ss)"

text \<open>
  The comparator \<open>(a, b) => b.name.length - a.name.length\<close> under the stable sort of
  \<open>Array.prototype.sort\<close>: longest name first, ties in their order in the list.
\<close>

definition sortLongestFirst :: "StationKeywords list \<Rightarrow> StationKeywords list" where
  "sortLongestFirst ks = sort_key (\<lambda>s. - int (length (sk_name s))) ks"

definition matchStationInText :: "string \<Rightarrow> StationKeywords list \<Rightarrow> StationKeywords option" where
  "matchStationInText text stationKeywords =
     (let lower = toLowerCase text in matchLoop lower (sortLongestFirst stationKeywords))"

section \<open>Audio detector: component state, speech results and door chimes\<close>

definition CHIME_THRESHOLD_DB :: real where "CHIME_THRESHOLD_DB = -35"
definition CHIME_MIN_DURATION_MS :: int where "CHIME_MIN_DURATION_MS = 500"

datatype Source = speech | chime

text \<open>
  The \<open>detail\<close> of a log entry is kept structured instead of rendered into one string:
  the message kind with the values the template literal interpolates. \<open>ev_time\<close> is the
  raw clock value that the source formats.
\<close>

datatype Detail =
    Matched string string
  | StartedListening
  | ChimeHit nat real
  | ChimeStarted
  | MicrophoneError string

record EventLogEntry =
  ev_time :: int
  ev_source :: Source
  ev_detail :: Detail

text \<open>
  State and refs of the audio component. \<open>recognitionRef\<close> records whether a recogniser
  is held; \<open>chimeTimers\<close> are the due times of the pending \<open>setTimeout\<close> callbacks.
\<close>

record audio =
  selectedLineA :: LineId
  originIdA :: string
  destinationIdA :: string
  runningA :: bool
  routeStationsA :: "Station list"
  transcript :: string
  speechMatches :: "string list"
  speechError :: "string option"
  chimeLevel :: real
  chimeDetected :: bool
  chimeCount :: nat
  eventLog :: "EventLogEntry list"
  recognitionRef :: bool
  stationKeywordsRef :: "StationKeywords list"
  chimeStartRef :: int
  chimeActiveRef :: bool
  matchedStationsRef :: "string set"
  chimeTimers :: "int list"

definition initialAudio :: audio where
  "initialAudio =
     \<lparr> selectedLineA = mrt_blue, originIdA = [], destinationIdA = [], runningA = False,
       routeStationsA = [], transcript = [], speechMatches = [], speechError = None,
       chimeLevel = -100, chimeDetected = False, chimeCount = 0, eventLog = [],
       recognitionRef = False, stationKeywordsRef = [], chimeStartRef = 0,
       chimeActiveRef = False, matchedStationsRef = {}, chimeTimers = [] \<rparr>"

definition addEvent :: "Source \<Rightarrow> Detail \<Rightarrow> int \<Rightarrow> audio \<Rightarrow> audio" where
  "addEvent src d now s =
     s\<lparr>eventLog := eventLog s @ [\<lparr>ev_time = now, ev_source = src, ev_detail = d\<rparr>]\<rparr>"

datatype jsError = TypeError

text \<open>
  \<open>recognition.onresult\<close>: \<open>results\<close> holds the first alternative's transcript of each
  result. Reading the last result of an empty list throws.
\<close>

definition onresult :: "string list \<Rightarrow> int \<Rightarrow> audio \<Rightarrow> jsError + audio" where
  "onresult results now s =
     (let fullTranscript = foldl (\<lambda>a r. a @ r) [] results;
          s1 = s\<lparr>transcript := fullTranscript\<rparr>
      in if results = [] then Inl TypeError
         else
           let latest = last results in
           case matchStationInText latest (stationKeywordsRef s1) of
             None \<Rightarrow> Inr s1
           | Some m \<Rightarrow>
               if sk_id m \<notin> matchedStationsRef s1 then
                 Inr (addEvent speech (Matched (sk_name m) (trim latest)) now
                       (s1\<lparr> matchedStationsRef := insert (sk_id m) (matchedStationsRef s1),
                             speechMatches := speechMatches s1 @ [sk_id m] \<rparr>))
               else Inr s1)"

text \<open>Average level over the bins \<open>lowBin..highBin\<close> that exist, \<open>-100\<close> when there are none.\<close>

definition bandAverage :: "nat \<Rightarrow> nat \<Rightarrow> real list \<Rightarrow> real" where
  "bandAverage lowBin highBin freqData =
     (let bins = [lowBin ..< min (highBin + 1) (length freqData)];
          sum = foldl (\<lambda>a i. a + freqData ! i) 0 bins;
          count = length bins
      in if count > 0 then sum / real count else -100)"

text \<open>One polling tick of the chime detector on the analyser's frequency data.\<close>

definition tick :: "nat \<Rightarrow> nat \<Rightarrow> real list \<Rightarrow> int \<Rightarrow> audio \<Rightarrow> audio" where
  "tick lowBin highBin freqData now s =
     (let avgDb = bandAverage lowBin highBin freqData;
          s1 = s\<lparr>chimeLevel := avgDb\<rparr>
      in if avgDb > CHIME_THRESHOLD_DB then
           (if \<not> chimeActiveRef s1 then s1\<lparr>chimeStartRef := now, chimeActiveRef := True\<rparr>
            else if now - chimeStartRef s1 \<ge> CHIME_MIN_DURATION_MS then
              let next = chimeCount s1 + 1;
                  s2 = addEvent chime (ChimeHit next avgDb) now
                         (s1\<lparr>chimeDetected := True, chimeCount := next\<rparr>)
              in s2\<lparr>chimeActiveRef := False, chimeTimers := chimeTimers s2 @ [now + 2000]\<rparr>
            else s1)
         else s1\<lparr>chimeActiveRef := False\<rparr>)"

text \<open>The callback of \<open>setTimeout(..., 2000)\<close>, run when the oldest pending timer is due.\<close>

definition timerFired :: "audio \<Rightarrow> audio" where
  "timerFired s =
     (case chimeTimers s of [] \<Rightarrow> s
      | t # ts \<Rightarrow> s\<lparr>chimeDetected := False, chimeTimers := ts\<rparr>)"

text \<open>
  \<open>handleStart\<close> of the audio component. \<open>speechSupported\<close> says whether the browser has a
  recogniser, \<open>micError\<close> is the message of a failed microphone request.
\<close>

definition handleStartAudio :: "Station list \<Rightarrow> bool \<Rightarrow> string option \<Rightarrow> int \<Rightarrow> audio \<Rightarrow> audio" where
  "handleStartAudio stations speechSupported micError now s =
     (if originIdA s = [] \<or> destinationIdA s = [] \<or> originIdA s = destinationIdA s then s
      else
        let route = getStationsOnRoute stations (selectedLineA s) (originIdA s) (destinationIdA s);
            s1 = s\<lparr> routeStationsA := route, stationKeywordsRef := buildStationKeywords route,
                    matchedStationsRef := {}, eventLog := [], transcript := [],
                    speechMatches := [], speechError := None, chimeLevel := -100,
                    chimeDetected := False, chimeCount := 0, runningA := True \<rparr>;
            s2 = (if \<not> speechSupported
                  then s1\<lparr>speechError := Some ''SpeechRecognition not supported in this browser''\<rparr>
                  else addEvent speech StartedListening now (s1\<lparr>recognitionRef := True\<rparr>))
        in case micError of
             None \<Rightarrow> addEvent chime ChimeStarted now s2
           | Some msg \<Rightarrow> addEvent chime (MicrophoneError msg) now s2)"

text \<open>What the event loop delivers to the audio component.\<close>

datatype AudioEvent = Frame "real list" int | Timeout | SpeechResult "string list" int

text \<open>A handler that throws leaves the state updates it made before the throw.\<close>

fun audioStep :: "nat \<Rightarrow> nat \<Rightarrow> AudioEvent \<Rightarrow> audio \<Rightarrow> audio" where
  "audioStep lowBin highBin (Frame freqData now) s = tick lowBin highBin freqData now s"
| "audioStep lowBin highBin Timeout s = timerFired s"
| "audioStep lowBin highBin (SpeechResult results now) s =
     (case onresult results now s of
        Inl e \<Rightarrow> s\<lparr>transcript := []\<rparr>
      | Inr s' \<Rightarrow> s')"

definition audioRun :: "nat \<Rightarrow> nat \<Rightarrow> AudioEvent list \<Rightarrow> audio \<Rightarrow> audio" where
  "audioRun lowBin highBin es s = foldl (\<lambda>t e. audioStep lowBin highBin e t) s es"

section \<open>Vocabulary of the statements\<close>

text \<open>The magnitude that \<open>handleMotion\<close> computes from an event, if it does not drop it.\<close>

fun magnitudeOf :: "acceleration option \<Rightarrow> real option" where
  "magnitudeOf (Some (Some x, Some y, Some z)) = Some (sqrt (x\<^sup>2 + y\<^sup>2 + z\<^sup>2))"
| "magnitudeOf _ = None"

text \<open>
  The classifier and gate state: everything but the sample window and the sample-rate
  bookkeeping.
\<close>

definition machine ::
  "motion \<Rightarrow> MotionState \<times> MotionState \<times> real \<times> DetectedStop list \<times> nat \<times> nat \<times> nat \<times> bool \<times> int \<times> int" where
  "machine s = (stateRef s, motionState s, variance s, detectedStops s, ignoredStops s,
     stateCounterRef s, stopCountRef s, pendingStopRef s, stopStartTimeRef s, lastConfirmedStopRef s)"

text \<open>
  The positional assignment of stations, as an invariant of the session: the stops
  detected so far carry the indices \<open>1, 2, ...\<close> and the station names that the route
  gives to these indices.
\<close>

definition routeInv :: "motion \<Rightarrow> bool" where
  "routeInv s \<longleftrightarrow>
     map ds_index (detectedStops s) = map Suc [0 ..< stopCountRef s] \<and>
     map ds_stationName (detectedStops s) =
       map (\<lambda>k. stationNameAt (routeRef s) (Suc k)) [0 ..< stopCountRef s]"

text \<open>
  The gate reads \<open>lastConfirmedStopRef = 0\<close> as "no stop confirmed yet".
\<close>

definition sentinelInv :: "motion \<Rightarrow> bool" where
  "sentinelInv s \<longleftrightarrow> (lastConfirmedStopRef s = 0 \<longleftrightarrow> detectedStops s = [])"



text \<open>
  The test that \<open>matchStationInText\<close> applies to one station: the lower-cased text
  contains the lower-cased full name, or one of the station's keywords of four or more
  characters.
\<close>

definition stationMatches :: "string \<Rightarrow> StationKeywords \<Rightarrow> bool" where
  "stationMatches lower s \<longleftrightarrow>
     includesStr lower (toLowerCase (sk_name s)) \<or>
     (\<exists>kw \<in> set (sk_keywords s). length kw \<ge> 4 \<and> includesStr lower kw)"

text \<open>The speech matches recorded so far are the matched set, each id once.\<close>

definition speechInv :: "audio \<Rightarrow> bool" where
  "speechInv s \<longleftrightarrow> distinct (speechMatches s) \<and> set (speechMatches s) = matchedStationsRef s"

text \<open>
  What the state machine and the gate read and write, with the window: \<open>running\<close>, the
  window, the state, the candidate counter, the pending flag, the start of the pending
  stop, the time of the last confirmation and the number of confirmed stops.
\<close>

definition gateView ::
  "motion \<Rightarrow> bool \<times> real list \<times> MotionState \<times> nat \<times> bool \<times> int \<times> int \<times> nat" where
  "gateView s = (running s, bufferRef s, stateRef s, stateCounterRef s, pendingStopRef s,
     stopStartTimeRef s, lastConfirmedStopRef s, stopCountRef s)"

text \<open>A full window of 59 zeros and one sample \<open>c\<close> that entered \<open>j\<close> samples ago.\<close>

definition spikeWindow :: "real \<Rightarrow> nat \<Rightarrow> real list" where
  "spikeWindow c j = replicate (59 - j) 0 @ c # replicate j 0"

text \<open>
  A sample stream for a journey over five stations. \<open>still\<close> is a sample whose three
  axes read 0 (magnitude 0), \<open>jolt\<close> a sample of magnitude 10. \<open>stillSamples t0 n\<close> are
  \<open>n\<close> still samples at 20 Hz from time \<open>t0\<close>.
\<close>

definition still :: "acceleration option" where
  "still = Some (Some 0, Some 0, Some 0)"

definition jolt :: "acceleration option" where
  "jolt = Some (Some 0, Some 0, Some 10)"

definition stillSamples :: "int \<Rightarrow> nat \<Rightarrow> (acceleration option \<times> int) list" where
  "stillSamples t0 n = map (\<lambda>i. (still, t0 + 50 * int i)) [0 ..< n]"

text \<open>
  One leg of the journey, from time \<open>t\<close>: a jolt, 67 still samples at 20 Hz, and, after
  a pause in the stream, one more still sample 15 s after the last of them.
\<close>

definition journeyLeg :: "int \<Rightarrow> (acceleration option \<times> int) list" where
  "journeyLeg t = (jolt, t) # stillSamples (t + 50) 67 @ [(still, t + 18350)]"

definition fiveStations :: "Station list" where
  "fiveStations =
     [\<lparr>st_id = ''A1'', st_name = ''Alpha'', st_line = arl, st_lat = 0, st_lng = 0\<rparr>,
      \<lparr>st_id = ''A2'', st_name = ''Bravo'', st_line = arl, st_lat = 0, st_lng = 0\<rparr>,
      \<lparr>st_id = ''A3'', st_name = ''Charlie'', st_line = arl, st_lat = 0, st_lng = 0\<rparr>,
      \<lparr>st_id = ''A4'', st_name = ''Delta'', st_line = arl, st_lat = 0, st_lng = 0\<rparr>,
      \<lparr>st_id = ''A5'', st_name = ''Echo'', st_line = arl, st_lat = 0, st_lng = 0\<rparr>]"

text \<open>The journey: 59 still samples after the start, then five legs 80 s apart.\<close>

definition journey :: "(acceleration option \<times> int) list" where
  "journey = stillSamples 1000050 59 @ journeyLeg 1010000 @ journeyLeg 1090000 @
     journeyLeg 1170000 @ journeyLeg 1250000 @ journeyLeg 1330000"

section \<open>Motion detector: basic facts\<close>

lemmas motion_consts = WINDOW_SIZE_def STOP_THRESHOLD_def MOVE_THRESHOLD_def MIN_STOP_DURATION_def
  MIN_MOVE_DURATION_def MIN_STOP_MS_def MIN_GAP_MS_def

lemma confirmStop_fields:
  "stateRef (confirmStop now s) = stateRef s"
  "motionState (confirmStop now s) = motionState s"
  "routeRef (confirmStop now s) = routeRef s"
  "bufferRef (confirmStop now s) = bufferRef s"
  "running (confirmStop now s) = running s"
  "variance (confirmStop now s) = variance s"
  "stateCounterRef (confirmStop now s) = stateCounterRef s"
  "stopStartTimeRef (confirmStop now s) = stopStartTimeRef s"
  "pendingStopRef (confirmStop now s) = False"
  by (simp_all add: confirmStop_def Let_def)

lemma pushSample_fields:
  "stateRef (pushSample m now s) = stateRef s"
  "motionState (pushSample m now s) = motionState s"
  "routeRef (pushSample m now s) = routeRef s"
  "running (pushSample m now s) = running s"
  "variance (pushSample m now s) = variance s"
  "detectedStops (pushSample m now s) = detectedStops s"
  "ignoredStops (pushSample m now s) = ignoredStops s"
  "stateCounterRef (pushSample m now s) = stateCounterRef s"
  "stopCountRef (pushSample m now s) = stopCountRef s"
  "stopStartTimeRef (pushSample m now s) = stopStartTimeRef s"
  "lastConfirmedStopRef (pushSample m now s) = lastConfirmedStopRef s"
  "pendingStopRef (pushSample m now s) = pendingStopRef s"
  by (simp_all add: pushSample_def Let_def)

lemma pushSample_buffer:
  "bufferRef (pushSample m now s) =
     (if length (bufferRef s) \<ge> WINDOW_SIZE then tl (bufferRef s @ [m]) else bufferRef s @ [m])"
  by (simp add: pushSample_def Let_def)

lemma classify_buffer: "bufferRef (classify v now s) = bufferRef s"
  and classify_running: "running (classify v now s) = running s"
  and classify_routeRef: "routeRef (classify v now s) = routeRef s"
  and classify_variance: "variance (classify v now s) = variance s"
  by (simp_all add: classify_def Let_def confirmStop_fields)

lemma handleMotion_magnitude:
  "handleMotion e now s = (case magnitudeOf e of None \<Rightarrow> s | Some m \<Rightarrow> processSample m now s)"
  by (cases "(e, now, s)" rule: handleMotion.cases) simp_all

lemma processSample_running: "running (processSample m now s) = running s"
  and processSample_routeRef: "routeRef (processSample m now s) = routeRef s"
  and processSample_buffer: "bufferRef (processSample m now s) = bufferRef (pushSample m now s)"
  by (simp_all add: processSample_def Let_def classify_running classify_routeRef classify_buffer pushSample_fields)

lemma handleMotion_running: "running (handleMotion e now s) = running s"
  and handleMotion_routeRef: "routeRef (handleMotion e now s) = routeRef s"
  by (simp_all add: handleMotion_magnitude processSample_running processSample_routeRef split: option.split)

lemma deliver_Nil: "deliver [] s = s"
  and deliver_Cons: "deliver (e # es) s = deliver es (onDeviceMotion e s)"
  and deliver_append: "deliver (es @ fs) s = deliver fs (deliver es s)"
  by (simp_all add: deliver_def)

lemma onDeviceMotion_running: "running (onDeviceMotion e s) = running s"
  by (simp add: onDeviceMotion_def handleMotion_running)

lemma classify_stateRef: "stateRef (classify v now s) \<in> {stateRef s, moving, stopped}"
  by (simp add: classify_def Let_def confirmStop_fields)

lemma classify_motionState: "motionState (classify v now s) \<in> {motionState s, moving, stopped}"
  by (simp add: classify_def Let_def confirmStop_fields)

lemma processSample_stateRef:
  "stateRef (processSample m now s) \<in> {stateRef s, moving, stopped}"
  using classify_stateRef [of "windowVariance (bufferRef (pushSample m now s))" now
      "(pushSample m now s)\<lparr>variance := windowVariance (bufferRef (pushSample m now s))\<rparr>"]
  by (simp add: processSample_def Let_def pushSample_fields)

lemma processSample_not_idle:
  "stateRef (processSample m now s) = idle \<Longrightarrow> stateRef s = idle"
  "motionState (processSample m now s) = idle \<Longrightarrow> motionState s = idle"
  using classify_stateRef [of "windowVariance (bufferRef (pushSample m now s))" now
      "(pushSample m now s)\<lparr>variance := windowVariance (bufferRef (pushSample m now s))\<rparr>"]
    classify_motionState [of "windowVariance (bufferRef (pushSample m now s))" now
      "(pushSample m now s)\<lparr>variance := windowVariance (bufferRef (pushSample m now s))\<rparr>"]
  by (auto simp add: processSample_def Let_def pushSample_fields split: if_splits)

lemma onDeviceMotion_not_idle:
  "stateRef (onDeviceMotion e s) = idle \<Longrightarrow> stateRef s = idle"
  "motionState (onDeviceMotion e s) = idle \<Longrightarrow> motionState s = idle"
  by (auto simp add: onDeviceMotion_def handleMotion_magnitude
      split: if_splits option.splits dest: processSample_not_idle)

lemma deliver_not_idle:
  "stateRef (deliver es s) = idle \<Longrightarrow> stateRef s = idle"
  "motionState (deliver es s) = idle \<Longrightarrow> motionState s = idle"
  by (induction es arbitrary: s) (auto simp add: deliver_Nil deliver_Cons dest: onDeviceMotion_not_idle)

text \<open>
  Claim C10. Within a running session the motion state machine never returns to \<open>idle\<close>
  once it has left it: processing samples can only set the state (the ref and the
  displayed state alike) to \<open>stopped\<close> or \<open>moving\<close>. \<open>idle\<close> is set by stopping the
  session (the displayed state) and by starting a new one (both).
\<close>

theorem idle_not_reentered:
  "(stateRef s \<noteq> idle \<longrightarrow> stateRef (deliver es s) \<noteq> idle) \<and>
   (motionState s \<noteq> idle \<longrightarrow> motionState (deliver es s) \<noteq> idle) \<and>
   (stateRef s \<noteq> idle \<longrightarrow> stateRef (handleMotion e now s) \<noteq> idle) \<and>
   (motionState s \<noteq> idle \<longrightarrow> motionState (handleMotion e now s) \<noteq> idle) \<and>
   stateRef (handleMotion e now s) \<in> {stateRef s, moving, stopped} \<and>
   motionState (handleStop s) = idle \<and>
   (running (handleStart stations granted now0 s) \<and> \<not> running s \<longrightarrow>
      stateRef (handleStart stations granted now0 s) = idle \<and>
      motionState (handleStart stations granted now0 s) = idle)"
proof -
  have "stateRef (handleMotion e now s) = idle \<longrightarrow> stateRef s = idle"
    by (auto simp add: handleMotion_magnitude split: option.splits dest: processSample_not_idle)
  moreover have "motionState (handleMotion e now s) = idle \<longrightarrow> motionState s = idle"
    by (auto simp add: handleMotion_magnitude split: option.splits dest: processSample_not_idle)
  moreover have "stateRef (handleMotion e now s) \<in> {stateRef s, moving, stopped}"
    using processSample_stateRef by (simp add: handleMotion_magnitude split: option.split)
  moreover have "motionState (handleStop s) = idle"
    by (simp add: handleStop_def)
  moreover have "running (handleStart stations granted now0 s) \<and> \<not> running s \<longrightarrow>
      stateRef (handleStart stations granted now0 s) = idle \<and>
      motionState (handleStart stations granted now0 s) = idle"
    by (simp add: handleStart_def Let_def)
  ultimately show ?thesis
    using deliver_not_idle [of es s] by blast
qed

theorem idle_not_reentered_witness:
  "stateRef (initialMotion\<lparr>running := True, stateRef := moving\<rparr>) \<noteq> idle \<and>
   stateRef (deliver [(Some (Some 0, Some 0, Some 0), 5)]
               (initialMotion\<lparr>running := True, stateRef := moving\<rparr>)) \<noteq> idle \<and>
   stateRef (handleMotion (Some (Some 0, Some 0, Some 0)) 5
               (initialMotion\<lparr>running := True, stateRef := moving\<rparr>)) \<noteq> idle"
  using idle_not_reentered [where es = "[(Some (Some 0, Some 0, Some 0), 5)]"
      and s = "initialMotion\<lparr>running := True, stateRef := moving\<rparr>"
      and e = "Some (Some 0, Some 0, Some 0)" and now = 5]
  by (simp add: initialMotion_def)

section \<open>Motion detector: warm-up\<close>

lemma processSample_warmup:
  "length (bufferRef s) + 1 < WINDOW_SIZE \<Longrightarrow> processSample m now s = pushSample m now s"
  by (simp add: processSample_def Let_def pushSample_buffer)

lemma machine_pushSample: "machine (pushSample m now s) = machine s"
  by (simp add: machine_def pushSample_fields)

lemma onDeviceMotion_warmup:
  assumes "running s" "length (bufferRef s) + 1 < WINDOW_SIZE"
  shows "machine (onDeviceMotion e s) = machine s"
    and "bufferRef (onDeviceMotion e s) = bufferRef s @ List.map_filter magnitudeOf [fst e]"
  using assms
  by (simp_all add: onDeviceMotion_def handleMotion_magnitude processSample_warmup
      machine_pushSample pushSample_buffer split: option.split)

lemma deliver_warmup:
  "running s \<Longrightarrow> length (bufferRef s) + length es < WINDOW_SIZE \<Longrightarrow>
   machine (deliver es s) = machine s \<and>
   bufferRef (deliver es s) = bufferRef s @ List.map_filter magnitudeOf (map fst es)"
proof (induction es arbitrary: s)
  case Nil
  then show ?case by (simp add: deliver_Nil)
next
  case (Cons e es)
  let ?t = "onDeviceMotion e s"
  have short: "length (bufferRef s) + 1 < WINDOW_SIZE"
    using Cons.prems(2) by simp
  have m: "machine ?t = machine s"
    and b: "bufferRef ?t = bufferRef s @ List.map_filter magnitudeOf [fst e]"
    using onDeviceMotion_warmup [OF Cons.prems(1) short] by simp_all
  have len: "length (bufferRef ?t) \<le> length (bufferRef s) + 1"
    unfolding b by (simp add: split: option.split)
  have "machine (deliver es ?t) = machine ?t \<and>
        bufferRef (deliver es ?t) = bufferRef ?t @ List.map_filter magnitudeOf (map fst es)"
    using Cons.prems len by (intro Cons.IH) (simp_all add: onDeviceMotion_running)
  then show ?case
    by (simp add: deliver_Cons m b split: option.split)
qed

text \<open>
  Claim C3. For every sample stream shorter than the window capacity of 60 samples,
  delivered to a freshly started session, the classifier performs no state transition,
  computes no variance and emits no event (neither a detected nor an ignored stop): each
  valid sample is only buffered, and a sample with a missing axis is dropped.
\<close>

theorem warm_up:
  assumes "originId s0 \<noteq> []" and "destinationId s0 \<noteq> []" and "originId s0 \<noteq> destinationId s0"
    and "length es < 60"
  shows "stateRef (deliver es (handleStart stations True now0 s0)) = idle \<and>
         motionState (deliver es (handleStart stations True now0 s0)) = idle \<and>
         variance (deliver es (handleStart stations True now0 s0)) = 0 \<and>
         detectedStops (deliver es (handleStart stations True now0 s0)) = [] \<and>
         ignoredStops (deliver es (handleStart stations True now0 s0)) = 0 \<and>
         stateCounterRef (deliver es (handleStart stations True now0 s0)) = 0 \<and>
         stopCountRef (deliver es (handleStart stations True now0 s0)) = 0 \<and>
         \<not> pendingStopRef (deliver es (handleStart stations True now0 s0)) \<and>
         bufferRef (deliver es (handleStart stations True now0 s0)) =
           List.map_filter magnitudeOf (map fst es)"
proof -
  let ?s = "handleStart stations True now0 s0"
  have run: "running ?s" and buf: "bufferRef ?s = []"
    using assms(1-3) by (simp_all add: handleStart_def Let_def)
  have m0: "machine ?s = (idle, idle, 0, [], 0, 0, 0, False, 0, 0)"
    using assms(1-3) by (simp add: handleStart_def Let_def machine_def)
  have "length (bufferRef ?s) + length es < WINDOW_SIZE"
    using assms(4) by (simp add: buf WINDOW_SIZE_def)
  from deliver_warmup [OF run this]
  have "machine (deliver es ?s) = (idle, idle, 0, [], 0, 0, 0, False, 0, 0)"
    and "bufferRef (deliver es ?s) = List.map_filter magnitudeOf (map fst es)"
    by (simp_all add: m0 buf)
  then show ?thesis
    by (simp add: machine_def)
qed

theorem warm_up_witness:
  "originId (initialMotion\<lparr>originId := ''a'', destinationId := ''b''\<rparr>) \<noteq> [] \<and>
   destinationId (initialMotion\<lparr>originId := ''a'', destinationId := ''b''\<rparr>) \<noteq> [] \<and>
   originId (initialMotion\<lparr>originId := ''a'', destinationId := ''b''\<rparr>) \<noteq>
     destinationId (initialMotion\<lparr>originId := ''a'', destinationId := ''b''\<rparr>) \<and>
   length [(Some (Some 0, Some 0, Some 3), 100 :: int), (None, 150), (Some (Some 0, Some 0, Some 0), 200)] < 60 \<and>
   stateRef (deliver [(Some (Some 0, Some 0, Some 3), 100), (None, 150), (Some (Some 0, Some 0, Some 0), 200)]
     (handleStart [] True 50 (initialMotion\<lparr>originId := ''a'', destinationId := ''b''\<rparr>))) = idle \<and>
   detectedStops (deliver [(Some (Some 0, Some 0, Some 3), 100), (None, 150), (Some (Some 0, Some 0, Some 0), 200)]
     (handleStart [] True 50 (initialMotion\<lparr>originId := ''a'', destinationId := ''b''\<rparr>))) = [] \<and>
   bufferRef (deliver [(Some (Some 0, Some 0, Some 3), 100), (None, 150), (Some (Some 0, Some 0, Some 0), 200)]
     (handleStart [] True 50 (initialMotion\<lparr>originId := ''a'', destinationId := ''b''\<rparr>))) = [3, 0]"
  using warm_up [of "initialMotion\<lparr>originId := ''a'', destinationId := ''b''\<rparr>"
      "[(Some (Some 0, Some 0, Some 3), 100), (None, 150), (Some (Some 0, Some 0, Some 0), 200)]" "[]" 50]
  by (simp add: initialMotion_def)

section \<open>Motion detector: the stop-confirmation gate\<close>

text \<open>
  Claim C1, as amended. A pending stop evaluated by the gate at time \<open>now\<close> is confirmed
  (stop counter incremented, \<open>lastConfirmedStopRef\<close> set to \<open>now\<close>, one detected stop
  appended) if and only if its duration \<open>now - stopStart\<close> is at least 15000 ms and
  either no stop has been confirmed yet (\<open>lastConfirmedStopRef\<close> is still \<open>0\<close>) or the
  gap from the last confirmation to the START of the pending stop,
  \<open>stopStart - lastConfirmedStopRef\<close>, is at least 60000 ms. Otherwise the pending stop
  is discarded: the ignored-stop counter is incremented and nothing is emitted. In both
  cases the pending flag is cleared. In particular a stop that starts less than 60000 ms
  after the last confirmation is discarded.
\<close>

theorem gate_decision:
  "(now - stopStartTimeRef s \<ge> 15000 \<and>
      (lastConfirmedStopRef s = 0 \<or> stopStartTimeRef s - lastConfirmedStopRef s \<ge> 60000) \<longrightarrow>
        stopCountRef (confirmStop now s) = stopCountRef s + 1 \<and>
        lastConfirmedStopRef (confirmStop now s) = now \<and>
        detectedStops (confirmStop now s) = detectedStops s @
          [\<lparr>ds_index = stopCountRef s + 1,
            ds_stationName = stationNameAt (routeRef s) (stopCountRef s + 1),
            ds_time = stopStartTimeRef s\<rparr>] \<and>
        ignoredStops (confirmStop now s) = ignoredStops s) \<and>
   (\<not> (now - stopStartTimeRef s \<ge> 15000 \<and>
      (lastConfirmedStopRef s = 0 \<or> stopStartTimeRef s - lastConfirmedStopRef s \<ge> 60000)) \<longrightarrow>
        stopCountRef (confirmStop now s) = stopCountRef s \<and>
        lastConfirmedStopRef (confirmStop now s) = lastConfirmedStopRef s \<and>
        detectedStops (confirmStop now s) = detectedStops s \<and>
        ignoredStops (confirmStop now s) = ignoredStops s + 1) \<and>
   \<not> pendingStopRef (confirmStop now s)"
  by (simp add: confirmStop_def Let_def MIN_STOP_MS_def MIN_GAP_MS_def)

theorem gate_decision_witness:
  "stopCountRef (confirmStop 300000
      (initialMotion\<lparr>stopCountRef := 1, lastConfirmedStopRef := 100000,
         stopStartTimeRef := 280000, pendingStopRef := True\<rparr>)) = 2 \<and>
   ignoredStops (confirmStop 165000
      (initialMotion\<lparr>stopCountRef := 1, lastConfirmedStopRef := 100000,
         stopStartTimeRef := 150000, pendingStopRef := True\<rparr>)) = 1 \<and>
   detectedStops (confirmStop 165000
      (initialMotion\<lparr>stopCountRef := 1, lastConfirmedStopRef := 100000,
         stopStartTimeRef := 150000, pendingStopRef := True\<rparr>)) = []"
  using gate_decision [of 300000 "initialMotion\<lparr>stopCountRef := 1, lastConfirmedStopRef := 100000,
         stopStartTimeRef := 280000, pendingStopRef := True\<rparr>"]
    gate_decision [of 165000 "initialMotion\<lparr>stopCountRef := 1, lastConfirmedStopRef := 100000,
         stopStartTimeRef := 150000, pendingStopRef := True\<rparr>"]
  by (simp add: initialMotion_def)

text \<open>
  The claim as stated measures the gap as the time elapsed since the last confirmed stop,
  up to \<open>now\<close>. Here the stop has lasted 15000 ms and 65000 ms have elapsed since the last
  confirmation at 100000, yet the stop is discarded, because it started only 50000 ms
  after that confirmation.
\<close>

theorem gate_elapsed_counterexample:
  "165000 - stopStartTimeRef (initialMotion\<lparr>stopCountRef := 1, lastConfirmedStopRef := 100000,
         stopStartTimeRef := 150000, pendingStopRef := True\<rparr>) \<ge> MIN_STOP_MS \<and>
   165000 - lastConfirmedStopRef (initialMotion\<lparr>stopCountRef := 1, lastConfirmedStopRef := 100000,
         stopStartTimeRef := 150000, pendingStopRef := True\<rparr>) \<ge> MIN_GAP_MS \<and>
   stopCountRef (confirmStop 165000 (initialMotion\<lparr>stopCountRef := 1,
         lastConfirmedStopRef := 100000, stopStartTimeRef := 150000, pendingStopRef := True\<rparr>)) = 1 \<and>
   lastConfirmedStopRef (confirmStop 165000 (initialMotion\<lparr>stopCountRef := 1,
         lastConfirmedStopRef := 100000, stopStartTimeRef := 150000, pendingStopRef := True\<rparr>)) = 100000 \<and>
   detectedStops (confirmStop 165000 (initialMotion\<lparr>stopCountRef := 1,
         lastConfirmedStopRef := 100000, stopStartTimeRef := 150000, pendingStopRef := True\<rparr>)) = [] \<and>
   ignoredStops (confirmStop 165000 (initialMotion\<lparr>stopCountRef := 1,
         lastConfirmedStopRef := 100000, stopStartTimeRef := 150000, pendingStopRef := True\<rparr>)) = 1"
  by (simp add: confirmStop_def Let_def MIN_STOP_MS_def MIN_GAP_MS_def initialMotion_def)

text \<open>
  In a session whose clock never reads \<open>0\<close>, the sentinel means what the gate takes it
  to mean: \<open>lastConfirmedStopRef\<close> is \<open>0\<close> exactly when no stop has been confirmed.
\<close>

lemma confirmStop_sentinel: "now \<noteq> 0 \<Longrightarrow> sentinelInv s \<Longrightarrow> sentinelInv (confirmStop now s)"
  by (simp add: sentinelInv_def confirmStop_def Let_def)

lemma classify_sentinel: "now \<noteq> 0 \<Longrightarrow> sentinelInv s \<Longrightarrow> sentinelInv (classify v now s)"
  using confirmStop_sentinel [of now "s\<lparr>stateCounterRef := 0\<rparr>"]
    confirmStop_sentinel [of now "s\<lparr>stateCounterRef := stateCounterRef s + 1\<rparr>"]
  by (auto simp add: classify_def Let_def sentinelInv_def)

lemma sentinelInv_pushSample:
  "sentinelInv (pushSample m now s) = sentinelInv s"
  "sentinelInv ((pushSample m now s)\<lparr>variance := v\<rparr>) = sentinelInv s"
  by (simp_all add: sentinelInv_def pushSample_fields)

lemma processSample_sentinel:
  "now \<noteq> 0 \<Longrightarrow> sentinelInv s \<Longrightarrow> sentinelInv (processSample m now s)"
  by (simp add: processSample_def Let_def classify_sentinel sentinelInv_pushSample)

lemma onDeviceMotion_sentinel:
  "snd e \<noteq> 0 \<Longrightarrow> sentinelInv s \<Longrightarrow> sentinelInv (onDeviceMotion e s)"
  by (simp add: onDeviceMotion_def handleMotion_magnitude processSample_sentinel split: option.split)

lemma deliver_sentinel:
  "\<forall>e\<in>set es. snd e \<noteq> 0 \<Longrightarrow> sentinelInv s \<Longrightarrow> sentinelInv (deliver es s)"
  by (induction es arbitrary: s) (simp_all add: deliver_Nil deliver_Cons onDeviceMotion_sentinel)

lemma session_sentinel:
  assumes "originId s0 \<noteq> []" and "destinationId s0 \<noteq> []" and "originId s0 \<noteq> destinationId s0"
    and "\<forall>e\<in>set es. snd e \<noteq> 0"
  shows "lastConfirmedStopRef (deliver es (handleStart stations True now0 s0)) = 0 \<longleftrightarrow>
         detectedStops (deliver es (handleStart stations True now0 s0)) = []"
proof -
  have "sentinelInv (handleStart stations True now0 s0)"
    using assms(1-3) by (simp add: sentinelInv_def handleStart_def Let_def)
  from deliver_sentinel [OF assms(4) this] show ?thesis
    by (simp add: sentinelInv_def)
qed

section \<open>Motion detector: stations assigned by position\<close>

lemma confirmStop_routeInv: "routeInv s \<Longrightarrow> routeInv (confirmStop now s)"
  by (simp add: routeInv_def confirmStop_def Let_def)

lemma classify_routeInv: "routeInv s \<Longrightarrow> routeInv (classify v now s)"
  using confirmStop_routeInv [of "s\<lparr>stateCounterRef := 0\<rparr>" now]
    confirmStop_routeInv [of "s\<lparr>stateCounterRef := stateCounterRef s + 1\<rparr>" now]
  by (auto simp add: classify_def Let_def routeInv_def)

lemma routeInv_pushSample:
  "routeInv (pushSample m now s) = routeInv s"
  "routeInv ((pushSample m now s)\<lparr>variance := v\<rparr>) = routeInv s"
  by (simp_all add: routeInv_def pushSample_fields)

lemma processSample_routeInv: "routeInv s \<Longrightarrow> routeInv (processSample m now s)"
  by (simp add: processSample_def Let_def classify_routeInv routeInv_pushSample)

lemma onDeviceMotion_routeInv: "routeInv s \<Longrightarrow> routeInv (onDeviceMotion e s)"
  by (simp add: onDeviceMotion_def handleMotion_magnitude processSample_routeInv split: option.split)

lemma deliver_routeInv: "routeInv s \<Longrightarrow> routeInv (deliver es s)"
  by (induction es arbitrary: s) (simp_all add: deliver_Nil deliver_Cons onDeviceMotion_routeInv)

lemma deliver_routeRef: "routeRef (deliver es s) = routeRef s"
  by (induction es arbitrary: s)
    (simp_all add: deliver_Nil deliver_Cons onDeviceMotion_def handleMotion_routeRef)

text \<open>A stop that is confirmed while the vehicle stands still, on a window of zeros.\<close>

lemma windowVariance_zeros: "windowVariance (replicate n 0) = 0"
proof -
  have "foldl (\<lambda>a b. a + b) 0 (replicate n (0::real)) = 0"
    by (induction n) simp_all
  then have m: "windowMean (replicate n 0) = 0"
    by (simp add: windowMean_def)
  have "foldl (\<lambda>a b. a + (b - 0)\<^sup>2) 0 (replicate n (0::real)) = 0"
    by (induction n) simp_all
  then show ?thesis
    by (simp add: windowVariance_def m)
qed

lemma push_zero_window:
  assumes "bufferRef s = replicate WINDOW_SIZE 0"
  shows "bufferRef (pushSample 0 now s) = replicate WINDOW_SIZE 0"
proof -
  have "tl (replicate (Suc n) (0::real) @ [0]) = replicate (Suc n) 0" for n
    by (simp add: replicate_append_same)
  from this [of 59] show ?thesis
    using assms by (simp add: pushSample_buffer WINDOW_SIZE_def del: replicate.simps replicate_Suc)
qed

lemma still_stopped_confirms:
  assumes "bufferRef s = replicate WINDOW_SIZE 0" and "stateRef s = stopped" and "pendingStopRef s"
    and "now - stopStartTimeRef s \<ge> MIN_STOP_MS"
  shows "detectedStops (handleMotion (Some (Some 0, Some 0, Some 0)) now s) =
         detectedStops (confirmStop now s)"
proof -
  let ?p = "pushSample 0 now s"
  have b: "bufferRef ?p = replicate WINDOW_SIZE 0"
    using push_zero_window [OF assms(1)] .
  have v: "windowVariance (bufferRef ?p) = 0"
    by (simp add: b windowVariance_zeros)
  have "processSample 0 now s = classify 0 now (?p\<lparr>variance := 0\<rparr>)"
    by (simp add: processSample_def Let_def v) (simp add: b)
  also have "\<dots> = confirmStop now (?p\<lparr>variance := 0, stateCounterRef := 0\<rparr>)"
    using assms(2-4) by (simp add: classify_def Let_def STOP_THRESHOLD_def pushSample_fields)
  finally have "handleMotion (Some (Some 0, Some 0, Some 0)) now s =
      confirmStop now (?p\<lparr>variance := 0, stateCounterRef := 0\<rparr>)"
    by simp
  then show ?thesis
    by (simp add: confirmStop_def Let_def pushSample_fields)
qed

text \<open>
  On a five-station route the stop with index 1 is \<open>Route[1]\<close>, and the stop with index
  5, the fifth of the session, is beyond the route.
\<close>

lemma first_stop_on_route:
  "map ds_stationName (detectedStops (handleMotion (Some (Some 0, Some 0, Some 0)) 900000
     (initialMotion\<lparr>running := True, stateRef := stopped, motionState := stopped,
        bufferRef := replicate WINDOW_SIZE 0, stopStartTimeRef := 880000, pendingStopRef := True,
        routeRef := map (\<lambda>n. \<lparr>st_id = n, st_name = n, st_line = arl, st_lat = 0, st_lng = 0\<rparr>)
          [''A'', ''B'', ''C'', ''D'', ''E'']\<rparr>))) = [''B'']"
  by (subst still_stopped_confirms)
    (simp_all add: initialMotion_def MIN_STOP_MS_def MIN_GAP_MS_def confirmStop_def Let_def
      stationNameAt_def)

lemma fifth_stop_beyond_route:
  "map ds_stationName (detectedStops (handleMotion (Some (Some 0, Some 0, Some 0)) 900000
     (initialMotion\<lparr>running := True, stateRef := stopped, motionState := stopped,
        bufferRef := replicate WINDOW_SIZE 0, stopCountRef := 4, lastConfirmedStopRef := 700000,
        stopStartTimeRef := 880000, pendingStopRef := True,
        routeRef := map (\<lambda>n. \<lparr>st_id = n, st_name = n, st_line = arl, st_lat = 0, st_lng = 0\<rparr>)
          [''A'', ''B'', ''C'', ''D'', ''E'']\<rparr>))) = [''Stop #6 (beyond route)'']"
proof -
  have six: "showNat 6 = ''6''"
    by code_simp
  show ?thesis
    by (subst still_stopped_confirms)
      (simp_all add: initialMotion_def MIN_STOP_MS_def MIN_GAP_MS_def confirmStop_def Let_def
        stationNameAt_def six)
qed

section \<open>Motion detector: a journey over five stations\<close>

lemma magnitudeOf_still: "magnitudeOf still = Some 0"
  by (simp add: still_def)

lemma magnitudeOf_jolt: "magnitudeOf jolt = Some 10"
proof -
  have "sqrt (10\<^sup>2) = \<bar>10\<bar>"
    by (rule real_sqrt_abs)
  then show ?thesis
    by (simp add: jolt_def)
qed

lemma on_sample:
  "running s \<Longrightarrow> magnitudeOf e = Some m \<Longrightarrow> onDeviceMotion (e, t) s = processSample m t s"
  by (simp add: onDeviceMotion_def handleMotion_magnitude)

lemma foldl_sum_replicate:
  "foldl (\<lambda>a b. a + b) acc (replicate n (x::real)) = acc + real n * x"
  by (induction n arbitrary: acc) (simp_all add: algebra_simps)

lemma foldl_sq_replicate:
  "foldl (\<lambda>a b. a + (b - mu)\<^sup>2) acc (replicate n (x::real)) = acc + real n * (x - mu)\<^sup>2"
  by (induction n arbitrary: acc) (simp_all add: algebra_simps)

lemma spikeWindow_variance:
  assumes "j \<le> 59"
  shows "windowVariance (spikeWindow c j) = c\<^sup>2 * 59 / 3600"
proof -
  define a where "a = 59 - j"
  have aj: "real a + real j = 59"
    using assms unfolding a_def by simp
  have len: "length (spikeWindow c j) = 60"
    using assms by (simp add: spikeWindow_def)
  have mean: "windowMean (spikeWindow c j) = c / 60"
    using len by (simp add: windowMean_def) (simp add: spikeWindow_def foldl_sum_replicate)
  have "foldl (\<lambda>x b. x + (b - c / 60)\<^sup>2) 0 (spikeWindow c j) =
        real a * (c / 60)\<^sup>2 + (c - c / 60)\<^sup>2 + real j * (c / 60)\<^sup>2"
    by (simp add: spikeWindow_def foldl_sq_replicate a_def)
  also have "\<dots> = (real a + real j) * (c / 60)\<^sup>2 + (c - c / 60)\<^sup>2"
    by (simp add: algebra_simps)
  also have "\<dots> = c\<^sup>2 * 59 / 60"
    unfolding aj by (simp add: power2_eq_square field_simps)
  finally have "foldl (\<lambda>x b. x + (b - c / 60)\<^sup>2) 0 (spikeWindow c j) = c\<^sup>2 * 59 / 60" .
  then show ?thesis
    using len by (simp add: windowVariance_def mean)
qed

lemma spikeWindow_length: "j \<le> 59 \<Longrightarrow> length (spikeWindow c j) = 60"
  by (simp add: spikeWindow_def)

lemma push_still_spike:
  assumes "bufferRef s = spikeWindow c j" and "j < 59"
  shows "bufferRef (pushSample 0 now s) = spikeWindow c (Suc j)"
proof -
  have "59 - j = Suc (59 - Suc j)"
    using assms(2) by simp
  then have "tl (spikeWindow c j @ [0]) = spikeWindow c (Suc j)"
    unfolding spikeWindow_def by (simp add: replicate_append_same)
  then show ?thesis
    using assms by (simp add: pushSample_buffer WINDOW_SIZE_def spikeWindow_length)
qed

lemma push_still_spike_last:
  assumes "bufferRef s = spikeWindow c 59"
  shows "bufferRef (pushSample 0 now s) = replicate 60 0"
proof -
  have "replicate (Suc 59) (0::real) = 0 # replicate 59 0"
    by (rule replicate_Suc)
  then have r: "replicate 60 (0::real) = 0 # replicate 59 0"
    by simp
  have "tl (spikeWindow c 59 @ [0]) = replicate 59 0 @ [0]"
    by (simp add: spikeWindow_def)
  also have "\<dots> = replicate 60 0"
    unfolding r by (rule replicate_append_same)
  finally show ?thesis
    using assms by (simp add: pushSample_buffer WINDOW_SIZE_def spikeWindow_length)
qed

lemma push_still_zeros:
  assumes "bufferRef s = replicate 60 0"
  shows "bufferRef (pushSample 0 now s) = replicate 60 0"
proof -
  have "tl (replicate (Suc n) (0::real) @ [0]) = replicate (Suc n) 0" for n
    by (simp add: replicate_append_same)
  from this [of 59] show ?thesis
    using assms by (simp add: pushSample_buffer WINDOW_SIZE_def del: replicate.simps replicate_Suc)
qed

lemma push_still_warm:
  assumes "bufferRef s = replicate b 0" and "b < 60"
  shows "bufferRef (pushSample 0 now s) = replicate (Suc b) 0"
  using assms by (simp add: pushSample_buffer WINDOW_SIZE_def replicate_append_same)

lemma push_jolt:
  assumes "bufferRef s = replicate b 0" and "b = 59 \<or> b = 60"
  shows "bufferRef (pushSample c now s) = spikeWindow c 0"
proof -
  have "tl (replicate (Suc n) (0::real) @ [c]) = replicate n 0 @ [c]" for n
    by simp
  from this [of 59] show ?thesis
    using assms by (auto simp add: pushSample_buffer WINDOW_SIZE_def spikeWindow_def
        simp del: replicate.simps replicate_Suc)
qed


lemmas view_simps = gateView_def processSample_def Let_def classify_def pushSample_fields
  motion_consts

lemma step_warm:
  assumes "gateView s = (True, B, X, k, p, a, l, n)"
    and "bufferRef (pushSample m now s) = B'" and "length B' < 60"
  shows "gateView (processSample m now s) = (True, B', X, k, p, a, l, n)"
  using assms by (simp add: view_simps)

lemma step_high_count:
  assumes "gateView s = (True, B, X, k, p, a, l, n)"
    and "bufferRef (pushSample m now s) = B'" and "length B' = 60"
    and "windowVariance B' > 1 / 2" and "X \<noteq> moving" and "k + 1 < 10"
  shows "gateView (processSample m now s) = (True, B', X, k + 1, p, a, l, n)"
  using assms by (simp add: view_simps)

lemma step_high_switch:
  assumes "gateView s = (True, B, X, k, False, a, l, n)"
    and "bufferRef (pushSample m now s) = B'" and "length B' = 60"
    and "windowVariance B' > 1 / 2" and "X \<noteq> moving" and "k + 1 \<ge> 10"
  shows "gateView (processSample m now s) = (True, B', moving, 0, False, a, l, n)"
  using assms by (simp add: view_simps)

lemma step_high_moving:
  assumes "gateView s = (True, B, moving, k, p, a, l, n)"
    and "bufferRef (pushSample m now s) = B'" and "length B' = 60"
    and "windowVariance B' > 1 / 2"
  shows "gateView (processSample m now s) = (True, B', moving, 0, p, a, l, n)"
  using assms by (simp add: view_simps)

lemma step_low_count:
  assumes "gateView s = (True, B, X, k, p, a, l, n)"
    and "bufferRef (pushSample m now s) = B'" and "length B' = 60"
    and "windowVariance B' < 3 / 10" and "X \<noteq> stopped" and "k + 1 < 8"
  shows "gateView (processSample m now s) = (True, B', X, k + 1, p, a, l, n)"
  using assms by (simp add: view_simps)

lemma step_low_switch:
  assumes "gateView s = (True, B, moving, k, p, a, l, n)"
    and "bufferRef (pushSample m now s) = B'" and "length B' = 60"
    and "windowVariance B' < 3 / 10" and "k + 1 \<ge> 8"
  shows "gateView (processSample m now s) = (True, B', stopped, 0, True, now, l, n)"
  using assms by (simp add: view_simps)

lemma step_low_confirm:
  assumes "gateView s = (True, B, stopped, k, True, a, l, n)"
    and "bufferRef (pushSample m now s) = B'" and "length B' = 60"
    and "windowVariance B' < 3 / 10" and "now - a \<ge> 15000" and "l = 0 \<or> a - l \<ge> 60000"
  shows "gateView (processSample m now s) = (True, B', stopped, 0, False, a, now, n + 1)"
  using assms by (auto simp add: view_simps confirmStop_def)

lemma phase_warm:
  "gateView s = (True, replicate b 0, X, k, p, a, l, n) \<Longrightarrow> \<forall>e\<in>set es. fst e = still \<Longrightarrow>
   b + length es \<le> 59 \<Longrightarrow>
   gateView (deliver es s) = (True, replicate (b + length es) 0, X, k, p, a, l, n)"
proof (induction es arbitrary: s b)
  case Nil
  then show ?case by (simp add: deliver_Nil)
next
  case (Cons e es)
  obtain t where e: "e = (still, t)"
    using Cons.prems(2) by (cases e) simp
  have run: "running s" and buf: "bufferRef s = replicate b 0"
    using Cons.prems(1) by (simp_all add: gateView_def)
  have b: "b < 60"
    using Cons.prems(3) by simp
  have st: "onDeviceMotion e s = processSample 0 t s"
    unfolding e using run magnitudeOf_still by (rule on_sample)
  have "gateView (processSample 0 t s) = (True, replicate (Suc b) 0, X, k, p, a, l, n)"
    using Cons.prems(1) push_still_warm [OF buf b] by (rule step_warm) (use Cons.prems(3) in simp)
  then have "gateView (deliver es (onDeviceMotion e s)) =
      (True, replicate (Suc b + length es) 0, X, k, p, a, l, n)"
    unfolding st using Cons.prems(2,3) by (intro Cons.IH) simp_all
  then show ?case
    by (simp add: deliver_Cons)
qed

lemma stillSamples_still: "\<forall>e\<in>set (stillSamples t n). fst e = still"
  and stillSamples_length: "length (stillSamples t n) = n"
  by (simp_all add: stillSamples_def)

lemma stillSamples_Suc:
  "stillSamples t (Suc n) = stillSamples t n @ [(still, t + 50 * int n)]"
  by (simp add: stillSamples_def)

lemma stillSamples_add:
  "stillSamples t (a + b) = stillSamples t a @ stillSamples (t + 50 * int a) b"
proof (induction b)
  case 0
  show ?case by (simp add: stillSamples_def)
next
  case (Suc b)
  have "stillSamples t (a + Suc b) = stillSamples t (a + b) @ [(still, t + 50 * int (a + b))]"
    using stillSamples_Suc [of t "a + b"] by simp
  also have "\<dots> = stillSamples t a @ stillSamples (t + 50 * int a) b @
      [(still, t + 50 * int a + 50 * int b)]"
    unfolding Suc.IH by (simp add: distrib_left)
  also have "\<dots> = stillSamples t a @ stillSamples (t + 50 * int a) (Suc b)"
    unfolding stillSamples_Suc [of "t + 50 * int a" b] by simp
  finally show ?case .
qed

lemma stillSamples_one: "stillSamples t (Suc 0) = [(still, t)]"
  by (simp add: stillSamples_def)

lemma phase_jolt_count:
  "gateView s = (True, spikeWindow c j, X, k, p, a, l, n) \<Longrightarrow> \<forall>e\<in>set es. fst e = still \<Longrightarrow>
   c\<^sup>2 * 59 / 3600 > 1 / 2 \<Longrightarrow> X \<noteq> moving \<Longrightarrow> k + length es < 10 \<Longrightarrow> j + length es \<le> 59 \<Longrightarrow>
   gateView (deliver es s) = (True, spikeWindow c (j + length es), X, k + length es, p, a, l, n)"
proof (induction es arbitrary: s j k)
  case Nil
  then show ?case by (simp add: deliver_Nil)
next
  case (Cons e es)
  obtain t where e: "e = (still, t)"
    using Cons.prems(2) by (cases e) simp
  have run: "running s" and buf: "bufferRef s = spikeWindow c j"
    using Cons.prems(1) by (simp_all add: gateView_def)
  have j: "j < 59" "Suc j \<le> 59"
    using Cons.prems(6) by simp_all
  have st: "onDeviceMotion e s = processSample 0 t s"
    unfolding e using run magnitudeOf_still by (rule on_sample)
  have "gateView (processSample 0 t s) = (True, spikeWindow c (Suc j), X, k + 1, p, a, l, n)"
    using Cons.prems(1) push_still_spike [OF buf j(1)] spikeWindow_length [OF j(2)]
  proof (rule step_high_count)
    show "1 / 2 < windowVariance (spikeWindow c (Suc j))"
      using Cons.prems(3) by (simp add: spikeWindow_variance [OF j(2)])
    show "X \<noteq> moving" by (rule Cons.prems(4))
    show "k + 1 < 10" using Cons.prems(5) by simp
  qed
  then have "gateView (deliver es (onDeviceMotion e s)) =
      (True, spikeWindow c (Suc j + length es), X, k + 1 + length es, p, a, l, n)"
    unfolding st using Cons.prems(2-6) by (intro Cons.IH) simp_all
  then show ?case
    by (simp add: deliver_Cons)
qed

lemma phase_jolt_moving:
  "gateView s = (True, spikeWindow c j, moving, 0, p, a, l, n) \<Longrightarrow> \<forall>e\<in>set es. fst e = still \<Longrightarrow>
   c\<^sup>2 * 59 / 3600 > 1 / 2 \<Longrightarrow> j + length es \<le> 59 \<Longrightarrow>
   gateView (deliver es s) = (True, spikeWindow c (j + length es), moving, 0, p, a, l, n)"
proof (induction es arbitrary: s j)
  case Nil
  then show ?case by (simp add: deliver_Nil)
next
  case (Cons e es)
  obtain t where e: "e = (still, t)"
    using Cons.prems(2) by (cases e) simp
  have run: "running s" and buf: "bufferRef s = spikeWindow c j"
    using Cons.prems(1) by (simp_all add: gateView_def)
  have j: "j < 59" "Suc j \<le> 59"
    using Cons.prems(4) by simp_all
  have st: "onDeviceMotion e s = processSample 0 t s"
    unfolding e using run magnitudeOf_still by (rule on_sample)
  have "gateView (processSample 0 t s) = (True, spikeWindow c (Suc j), moving, 0, p, a, l, n)"
    using Cons.prems(1) push_still_spike [OF buf j(1)] spikeWindow_length [OF j(2)]
  proof (rule step_high_moving)
    show "1 / 2 < windowVariance (spikeWindow c (Suc j))"
      using Cons.prems(3) by (simp add: spikeWindow_variance [OF j(2)])
  qed
  then have "gateView (deliver es (onDeviceMotion e s)) =
      (True, spikeWindow c (Suc j + length es), moving, 0, p, a, l, n)"
    unfolding st using Cons.prems(2-4) by (intro Cons.IH) simp_all
  then show ?case
    by (simp add: deliver_Cons)
qed

lemma phase_zero_count:
  "gateView s = (True, replicate 60 0, X, k, p, a, l, n) \<Longrightarrow> \<forall>e\<in>set es. fst e = still \<Longrightarrow>
   X \<noteq> stopped \<Longrightarrow> k + length es < 8 \<Longrightarrow>
   gateView (deliver es s) = (True, replicate 60 0, X, k + length es, p, a, l, n)"
proof (induction es arbitrary: s k)
  case Nil
  then show ?case by (simp add: deliver_Nil)
next
  case (Cons e es)
  obtain t where e: "e = (still, t)"
    using Cons.prems(2) by (cases e) simp
  have run: "running s" and buf: "bufferRef s = replicate 60 0"
    using Cons.prems(1) by (simp_all add: gateView_def)
  have st: "onDeviceMotion e s = processSample 0 t s"
    unfolding e using run magnitudeOf_still by (rule on_sample)
  have "gateView (processSample 0 t s) = (True, replicate 60 0, X, k + 1, p, a, l, n)"
    using Cons.prems(1) push_still_zeros [OF buf]
  proof (rule step_low_count)
    show "length (replicate 60 (0::real)) = 60" by simp
    show "windowVariance (replicate 60 0) < 3 / 10" by (simp add: windowVariance_zeros)
    show "X \<noteq> stopped" by (rule Cons.prems(3))
    show "k + 1 < 8" using Cons.prems(4) by simp
  qed
  then have "gateView (deliver es (onDeviceMotion e s)) =
      (True, replicate 60 0, X, k + 1 + length es, p, a, l, n)"
    unfolding st using Cons.prems(2-4) by (intro Cons.IH) simp_all
  then show ?case
    by (simp add: deliver_Cons)
qed

lemma journeyLeg_phases:
  "journeyLeg t = (jolt, t) # stillSamples (t + 50) 8 @ (still, t + 450) #
     stillSamples (t + 500) 50 @ (still, t + 3000) # stillSamples (t + 3050) 6 @
     [(still, t + 3350), (still, t + 18350)]"
proof -
  have n: "(67::nat) = 8 + (Suc 0 + (50 + (Suc 0 + (6 + Suc 0))))"
    by simp
  have "stillSamples (t + 50) (8 + (Suc 0 + (50 + (Suc 0 + (6 + Suc 0))))) =
      stillSamples (t + 50) 8 @ (still, t + 450) # stillSamples (t + 500) 50 @
      (still, t + 3000) # stillSamples (t + 3050) 6 @ [(still, t + 3350)]"
    by (simp only: stillSamples_add stillSamples_one) (simp add: add.commute)
  then show ?thesis
    unfolding journeyLeg_def n by simp
qed

lemma still_step:
  "gateView s = (True, B, X, k, p, a, l, n) \<Longrightarrow> onDeviceMotion (still, t) s = processSample 0 t s"
  using magnitudeOf_still by (intro on_sample) (simp_all add: gateView_def)

lemma jolt_variance: "1 / 2 < windowVariance (spikeWindow 10 j)" if "j \<le> 59"
  using that by (simp add: spikeWindow_variance)

lemma zero_variance: "windowVariance (replicate 60 0) < 3 / 10"
  by (simp add: windowVariance_zeros)

lemma journeyLeg_view:
  assumes v: "gateView s = (True, replicate b 0, X, 0, False, a, l, n)"
    and b: "b = 59 \<or> b = 60" and X: "X \<noteq> moving" and gap: "l = 0 \<or> t + 3350 - l \<ge> 60000"
  shows "gateView (deliver (journeyLeg t) s) =
         (True, replicate 60 0, stopped, 0, False, t + 3350, t + 18350, n + 1)"
proof -
  define s1 where "s1 = onDeviceMotion (jolt, t) s"
  define s2 where "s2 = deliver (stillSamples (t + 50) 8) s1"
  define s3 where "s3 = onDeviceMotion (still, t + 450) s2"
  define s4 where "s4 = deliver (stillSamples (t + 500) 50) s3"
  define s5 where "s5 = onDeviceMotion (still, t + 3000) s4"
  define s6 where "s6 = deliver (stillSamples (t + 3050) 6) s5"
  define s7 where "s7 = onDeviceMotion (still, t + 3350) s6"
  define s8 where "s8 = onDeviceMotion (still, t + 18350) s7"
  have run: "running s" and buf: "bufferRef s = replicate b 0"
    using v by (simp_all add: gateView_def)
  have e1: "s1 = processSample 10 t s"
    unfolding s1_def using run magnitudeOf_jolt by (rule on_sample)
  have "gateView (processSample 10 t s) = (True, spikeWindow 10 0, X, 0 + 1, False, a, l, n)"
    using v push_jolt [OF buf b]
  proof (rule step_high_count)
    show "length (spikeWindow 10 0) = 60" by (simp add: spikeWindow_length)
    show "1 / 2 < windowVariance (spikeWindow 10 0)" by (rule jolt_variance) simp
    show "X \<noteq> moving" by (rule X)
    show "0 + 1 < (10::nat)" by simp
  qed
  then have v1: "gateView s1 = (True, spikeWindow 10 0, X, 1, False, a, l, n)"
    by (simp add: e1)
  have "gateView s2 = (True, spikeWindow 10 (0 + length (stillSamples (t + 50) 8)), X,
      1 + length (stillSamples (t + 50) 8), False, a, l, n)"
    unfolding s2_def using v1 stillSamples_still
    by (rule phase_jolt_count) (simp_all add: stillSamples_length X)
  then have v2: "gateView s2 = (True, spikeWindow 10 8, X, 9, False, a, l, n)"
    by (simp add: stillSamples_length)
  have b2: "bufferRef s2 = spikeWindow 10 8"
    using v2 by (simp add: gateView_def)
  have e3: "s3 = processSample 0 (t + 450) s2"
    unfolding s3_def using v2 by (rule still_step)
  have "gateView (processSample 0 (t + 450) s2) =
      (True, spikeWindow 10 (Suc 8), moving, 0, False, a, l, n)"
    using v2 push_still_spike [OF b2]
  proof (rule step_high_switch)
    show "(8::nat) < 59" by simp
    show "length (spikeWindow 10 (Suc 8)) = 60" by (simp add: spikeWindow_length)
    show "1 / 2 < windowVariance (spikeWindow 10 (Suc 8))" by (rule jolt_variance) simp
    show "X \<noteq> moving" by (rule X)
    show "(10::nat) \<le> 9 + 1" by simp
  qed
  then have v3: "gateView s3 = (True, spikeWindow 10 9, moving, 0, False, a, l, n)"
    by (simp add: e3)
  have "gateView s4 = (True, spikeWindow 10 (9 + length (stillSamples (t + 500) 50)), moving, 0,
      False, a, l, n)"
    unfolding s4_def using v3 stillSamples_still
    by (rule phase_jolt_moving) (simp_all add: stillSamples_length)
  then have v4: "gateView s4 = (True, spikeWindow 10 59, moving, 0, False, a, l, n)"
    by (simp add: stillSamples_length)
  have b4: "bufferRef s4 = spikeWindow 10 59"
    using v4 by (simp add: gateView_def)
  have e5: "s5 = processSample 0 (t + 3000) s4"
    unfolding s5_def using v4 by (rule still_step)
  have "gateView (processSample 0 (t + 3000) s4) =
      (True, replicate 60 0, moving, 0 + 1, False, a, l, n)"
    using v4 push_still_spike_last [OF b4]
  proof (rule step_low_count)
    show "length (replicate 60 (0::real)) = 60" by simp
    show "windowVariance (replicate 60 0) < 3 / 10" by (rule zero_variance)
    show "moving \<noteq> stopped" by simp
    show "0 + 1 < (8::nat)" by simp
  qed
  then have v5: "gateView s5 = (True, replicate 60 0, moving, 1, False, a, l, n)"
    by (simp add: e5)
  have "gateView s6 = (True, replicate 60 0, moving, 1 + length (stillSamples (t + 3050) 6),
      False, a, l, n)"
    unfolding s6_def using v5 stillSamples_still
    by (rule phase_zero_count) (simp_all add: stillSamples_length)
  then have v6: "gateView s6 = (True, replicate 60 0, moving, 7, False, a, l, n)"
    by (simp add: stillSamples_length)
  have b6: "bufferRef s6 = replicate 60 0"
    using v6 by (simp add: gateView_def)
  have e7: "s7 = processSample 0 (t + 3350) s6"
    unfolding s7_def using v6 by (rule still_step)
  have "gateView (processSample 0 (t + 3350) s6) =
      (True, replicate 60 0, stopped, 0, True, t + 3350, l, n)"
    using v6 push_still_zeros [OF b6]
  proof (rule step_low_switch)
    show "length (replicate 60 (0::real)) = 60" by simp
    show "windowVariance (replicate 60 0) < 3 / 10" by (rule zero_variance)
    show "(8::nat) \<le> 7 + 1" by simp
  qed
  then have v7: "gateView s7 = (True, replicate 60 0, stopped, 0, True, t + 3350, l, n)"
    by (simp add: e7)
  have b7: "bufferRef s7 = replicate 60 0"
    using v7 by (simp add: gateView_def)
  have e8: "s8 = processSample 0 (t + 18350) s7"
    unfolding s8_def using v7 by (rule still_step)
  have "gateView (processSample 0 (t + 18350) s7) =
      (True, replicate 60 0, stopped, 0, False, t + 3350, t + 18350, n + 1)"
    using v7 push_still_zeros [OF b7]
  proof (rule step_low_confirm)
    show "length (replicate 60 (0::real)) = 60" by simp
    show "windowVariance (replicate 60 0) < 3 / 10" by (rule zero_variance)
    show "15000 \<le> t + 18350 - (t + 3350)" by simp
    show "l = 0 \<or> 60000 \<le> t + 3350 - l" by (rule gap)
  qed
  then have v8: "gateView s8 = (True, replicate 60 0, stopped, 0, False, t + 3350, t + 18350, n + 1)"
    by (simp add: e8)
  have "deliver (journeyLeg t) s = s8"
    unfolding journeyLeg_phases s8_def s7_def s6_def s5_def s4_def s3_def s2_def s1_def
    by (simp add: deliver_Cons deliver_append deliver_Nil)
  then show ?thesis
    by (simp add: v8)
qed

section \<open>Motion detector: the stops of a journey, by position\<close>

text \<open>
  The journey on the five-station route: after the warm-up, five legs, each confirming
  one stop. The last stop lies beyond the route.
\<close>

lemma journey_view:
  "gateView (deliver journey (handleStart fiveStations True 1000000
     (initialMotion\<lparr>selectedLine := arl, originId := ''A1'', destinationId := ''A5''\<rparr>))) =
   (True, replicate 60 0, stopped, 0, False, 1333350, 1348350, 5)"
proof -
  let ?s = "handleStart fiveStations True 1000000
     (initialMotion\<lparr>selectedLine := arl, originId := ''A1'', destinationId := ''A5''\<rparr>)"
  define w where "w = deliver (stillSamples 1000050 59) ?s"
  define l1 where "l1 = deliver (journeyLeg 1010000) w"
  define l2 where "l2 = deliver (journeyLeg 1090000) l1"
  define l3 where "l3 = deliver (journeyLeg 1170000) l2"
  define l4 where "l4 = deliver (journeyLeg 1250000) l3"
  define l5 where "l5 = deliver (journeyLeg 1330000) l4"
  have v0: "gateView ?s = (True, replicate 0 0, idle, 0, False, 0, 0, 0)"
    by (simp add: gateView_def handleStart_def Let_def initialMotion_def)
  have "gateView w = (True, replicate (0 + length (stillSamples 1000050 59)) 0, idle, 0, False, 0, 0, 0)"
    unfolding w_def using v0 stillSamples_still
    by (rule phase_warm) (simp add: stillSamples_length)
  then have vw: "gateView w = (True, replicate 59 0, idle, 0, False, 0, 0, 0)"
    by (simp add: stillSamples_length)
  have "gateView l1 = (True, replicate 60 0, stopped, 0, False, 1010000 + 3350, 1010000 + 18350, 0 + 1)"
    unfolding l1_def using vw by (rule journeyLeg_view) simp_all
  then have v1: "gateView l1 = (True, replicate 60 0, stopped, 0, False, 1013350, 1028350, 1)"
    by simp
  have "gateView l2 = (True, replicate 60 0, stopped, 0, False, 1090000 + 3350, 1090000 + 18350, 1 + 1)"
    unfolding l2_def using v1 by (rule journeyLeg_view) simp_all
  then have v2: "gateView l2 = (True, replicate 60 0, stopped, 0, False, 1093350, 1108350, 2)"
    by simp
  have "gateView l3 = (True, replicate 60 0, stopped, 0, False, 1170000 + 3350, 1170000 + 18350, 2 + 1)"
    unfolding l3_def using v2 by (rule journeyLeg_view) simp_all
  then have v3: "gateView l3 = (True, replicate 60 0, stopped, 0, False, 1173350, 1188350, 3)"
    by simp
  have "gateView l4 = (True, replicate 60 0, stopped, 0, False, 1250000 + 3350, 1250000 + 18350, 3 + 1)"
    unfolding l4_def using v3 by (rule journeyLeg_view) simp_all
  then have v4: "gateView l4 = (True, replicate 60 0, stopped, 0, False, 1253350, 1268350, 4)"
    by simp
  have "gateView l5 = (True, replicate 60 0, stopped, 0, False, 1330000 + 3350, 1330000 + 18350, 4 + 1)"
    unfolding l5_def using v4 by (rule journeyLeg_view) simp_all
  then have v5: "gateView l5 = (True, replicate 60 0, stopped, 0, False, 1333350, 1348350, 5)"
    by simp
  have "deliver journey ?s = l5"
    unfolding journey_def l5_def l4_def l3_def l2_def l1_def w_def
    by (simp add: deliver_append)
  then show ?thesis
    by (simp add: v5)
qed

lemma fiveStations_route: "getStationsOnRoute fiveStations arl ''A1'' ''A5'' = fiveStations"
  by (simp add: getStationsOnRoute_def fiveStations_def slice_def Let_def)

text \<open>
  Claim C6. In a session, the confirmed stop events carry the indices \<open>1, 2, 3, ...\<close> in
  order, and the event with index \<open>i\<close> is given the name of \<open>Route[i]\<close> when \<open>i\<close> is below
  the length of the route and the placeholder \<open>Stop #(i+1) (beyond route)\<close> otherwise;
  the lookup is guarded, so no index is read out of range. Whenever the gate accepts a
  pending stop in a session, the confirmation appends exactly one event, with the next
  index, the start time of the stop, and the name chosen by that rule. On a five-station
  route the first four confirmed stops are thus \<open>Route[1]\<close>, ..., \<open>Route[4]\<close>, and an event
  whose index reaches the length of the route gets the placeholder.
\<close>

theorem route_positions:
  assumes "originId s0 \<noteq> []" and "destinationId s0 \<noteq> []" and "originId s0 \<noteq> destinationId s0"
  shows "stopCountRef (deliver es (handleStart stations True now0 s0)) =
           length (detectedStops (deliver es (handleStart stations True now0 s0))) \<and>
         routeRef (deliver es (handleStart stations True now0 s0)) =
           getStationsOnRoute stations (selectedLine s0) (originId s0) (destinationId s0) \<and>
         map ds_index (detectedStops (deliver es (handleStart stations True now0 s0))) =
           map (\<lambda>k. k + 1) [0 ..< length (detectedStops (deliver es (handleStart stations True now0 s0)))] \<and>
         map ds_stationName (detectedStops (deliver es (handleStart stations True now0 s0))) =
           map (\<lambda>k. if k + 1 < length (getStationsOnRoute stations (selectedLine s0) (originId s0) (destinationId s0))
                    then st_name (getStationsOnRoute stations (selectedLine s0) (originId s0) (destinationId s0) ! (k + 1))
                    else ''Stop #'' @ showNat (k + 2) @ '' (beyond route)'')
               [0 ..< length (detectedStops (deliver es (handleStart stations True now0 s0)))] \<and>
         (now - stopStartTimeRef (deliver es (handleStart stations True now0 s0)) \<ge> 15000 \<and>
          (lastConfirmedStopRef (deliver es (handleStart stations True now0 s0)) = 0 \<or>
           stopStartTimeRef (deliver es (handleStart stations True now0 s0)) -
             lastConfirmedStopRef (deliver es (handleStart stations True now0 s0)) \<ge> 60000) \<longrightarrow>
          detectedStops (confirmStop now (deliver es (handleStart stations True now0 s0))) =
            detectedStops (deliver es (handleStart stations True now0 s0)) @
            [\<lparr>ds_index = length (detectedStops (deliver es (handleStart stations True now0 s0))) + 1,
              ds_stationName =
                (if length (detectedStops (deliver es (handleStart stations True now0 s0))) + 1
                      < length (getStationsOnRoute stations (selectedLine s0) (originId s0) (destinationId s0))
                 then st_name (getStationsOnRoute stations (selectedLine s0) (originId s0) (destinationId s0) !
                        (length (detectedStops (deliver es (handleStart stations True now0 s0))) + 1))
                 else ''Stop #'' @
                        showNat (length (detectedStops (deliver es (handleStart stations True now0 s0))) + 2) @
                        '' (beyond route)''),
              ds_time = stopStartTimeRef (deliver es (handleStart stations True now0 s0))\<rparr>])"
proof -
  let ?s = "handleStart stations True now0 s0"
  let ?t = "deliver es ?s"
  let ?route = "getStationsOnRoute stations (selectedLine s0) (originId s0) (destinationId s0)"
  have "routeInv ?s" and r0: "routeRef ?s = ?route"
    using assms by (simp_all add: routeInv_def handleStart_def Let_def)
  then have inv: "routeInv ?t" and r: "routeRef ?t = ?route"
    by (simp_all add: deliver_routeInv deliver_routeRef)
  have idx: "map ds_index (detectedStops ?t) = map Suc [0 ..< stopCountRef ?t]"
    and nm: "map ds_stationName (detectedStops ?t) =
       map (\<lambda>k. stationNameAt ?route (Suc k)) [0 ..< stopCountRef ?t]"
    using inv r by (simp_all add: routeInv_def)
  have len: "stopCountRef ?t = length (detectedStops ?t)"
    using arg_cong [OF idx, of length] by simp
  have step: "now - stopStartTimeRef ?t \<ge> 15000 \<and>
      (lastConfirmedStopRef ?t = 0 \<or> stopStartTimeRef ?t - lastConfirmedStopRef ?t \<ge> 60000) \<longrightarrow>
      detectedStops (confirmStop now ?t) = detectedStops ?t @
        [\<lparr>ds_index = length (detectedStops ?t) + 1,
          ds_stationName =
            (if length (detectedStops ?t) + 1 < length ?route
             then st_name (?route ! (length (detectedStops ?t) + 1))
             else ''Stop #'' @ showNat (length (detectedStops ?t) + 2) @ '' (beyond route)''),
          ds_time = stopStartTimeRef ?t\<rparr>]"
    using len r
    by (simp add: confirmStop_def Let_def MIN_STOP_MS_def MIN_GAP_MS_def stationNameAt_def)
  have main: "stopCountRef ?t = length (detectedStops ?t) \<and> routeRef ?t = ?route \<and>
      map ds_index (detectedStops ?t) = map (\<lambda>k. k + 1) [0 ..< length (detectedStops ?t)] \<and>
      map ds_stationName (detectedStops ?t) =
        map (\<lambda>k. if k + 1 < length ?route then st_name (?route ! (k + 1))
                 else ''Stop #'' @ showNat (k + 2) @ '' (beyond route)'')
          [0 ..< length (detectedStops ?t)]"
    using len r idx nm by (simp add: stationNameAt_def)
  show ?thesis
    using main step by blast
qed

theorem route_positions_witness:
  "originId (initialMotion\<lparr>selectedLine := arl, originId := ''A1'', destinationId := ''A5''\<rparr>) \<noteq> [] \<and>
   destinationId (initialMotion\<lparr>selectedLine := arl, originId := ''A1'', destinationId := ''A5''\<rparr>) \<noteq> [] \<and>
   originId (initialMotion\<lparr>selectedLine := arl, originId := ''A1'', destinationId := ''A5''\<rparr>) \<noteq>
     destinationId (initialMotion\<lparr>selectedLine := arl, originId := ''A1'', destinationId := ''A5''\<rparr>) \<and>
   map ds_index (detectedStops (deliver journey (handleStart fiveStations True 1000000
     (initialMotion\<lparr>selectedLine := arl, originId := ''A1'', destinationId := ''A5''\<rparr>)))) =
     [1, 2, 3, 4, 5] \<and>
   map ds_stationName (detectedStops (deliver journey (handleStart fiveStations True 1000000
     (initialMotion\<lparr>selectedLine := arl, originId := ''A1'', destinationId := ''A5''\<rparr>)))) =
     [''Bravo'', ''Charlie'', ''Delta'', ''Echo'', ''Stop #6 (beyond route)''] \<and>
   1028350 - stopStartTimeRef (deliver [] (handleStart fiveStations True 1000000
     (initialMotion\<lparr>selectedLine := arl, originId := ''A1'', destinationId := ''A5''\<rparr>))) \<ge> 15000 \<and>
   lastConfirmedStopRef (deliver [] (handleStart fiveStations True 1000000
     (initialMotion\<lparr>selectedLine := arl, originId := ''A1'', destinationId := ''A5''\<rparr>))) = 0 \<and>
   map ds_stationName (detectedStops (confirmStop 1028350 (deliver [] (handleStart fiveStations True 1000000
     (initialMotion\<lparr>selectedLine := arl, originId := ''A1'', destinationId := ''A5''\<rparr>))))) =
     [''Bravo'']"
proof -
  let ?s0 = "initialMotion\<lparr>selectedLine := arl, originId := ''A1'', destinationId := ''A5''\<rparr>"
  let ?t = "deliver journey (handleStart fiveStations True 1000000 ?s0)"
  have g: "originId ?s0 \<noteq> []" "destinationId ?s0 \<noteq> []" "originId ?s0 \<noteq> destinationId ?s0"
    by (simp_all add: initialMotion_def)
  have sel: "selectedLine ?s0 = arl" "originId ?s0 = ''A1''" "destinationId ?s0 = ''A5''"
    by (simp_all add: initialMotion_def)
  have view: "stopCountRef ?t = 5" "stopStartTimeRef ?t = 1333350" "lastConfirmedStopRef ?t = 1348350"
    using journey_view by (simp_all add: gateView_def)
  have six: "showNat 6 = ''6''"
    by code_simp
  have upt: "[0 ..< 5] = [0, 1, 2, 3, 4 :: nat]"
    by (simp add: upt_rec)
  note inst = route_positions [OF g, of journey fiveStations 1000000 1363350]
  have len: "length (detectedStops ?t) = 5"
    using inst view(1) by simp
  have names: "map ds_stationName (detectedStops ?t) =
      [''Bravo'', ''Charlie'', ''Delta'', ''Echo'', ''Stop #6 (beyond route)'']"
    using inst unfolding len sel fiveStations_route upt
    by (simp add: fiveStations_def six)
  have idx: "map ds_index (detectedStops ?t) = [1, 2, 3, 4, 5]"
    using inst unfolding len upt by simp
  let ?u = "deliver [] (handleStart fiveStations True 1000000 ?s0)"
  have start: "stopStartTimeRef ?u = 0" "lastConfirmedStopRef ?u = 0" "detectedStops ?u = []"
    by (simp_all add: deliver_Nil handleStart_def Let_def initialMotion_def)
  note inst0 = route_positions [OF g, of "[]" fiveStations 1000000 1028350]
  have first: "map ds_stationName (detectedStops (confirmStop 1028350 ?u)) = [''Bravo'']"
    using inst0 unfolding start sel fiveStations_route
    by (simp add: fiveStations_def)
  show ?thesis
    using g names idx start first by simp
qed

section \<open>Motion detector: the hysteresis gap\<close>

lemma classify_gap:
  "STOP_THRESHOLD \<le> v \<Longrightarrow> v \<le> MOVE_THRESHOLD \<Longrightarrow> classify v now s = s"
  by (simp add: classify_def Let_def)

lemma processSample_gap:
  assumes "WINDOW_SIZE \<le> length (bufferRef (pushSample m now s))"
    and "STOP_THRESHOLD \<le> windowVariance (bufferRef (pushSample m now s))"
    and "windowVariance (bufferRef (pushSample m now s)) \<le> MOVE_THRESHOLD"
  shows "processSample m now s =
         (pushSample m now s)\<lparr>variance := windowVariance (bufferRef (pushSample m now s))\<rparr>"
  using assms by (simp add: processSample_def Let_def classify_gap)

text \<open>
  Claim C2, as amended. For every sample whose window variance lies strictly between the
  stop threshold 0.3 and the move threshold 0.5, the classifier performs no state
  transition and leaves the candidate counter as it is: nothing is reset. The gate state
  and the detected and ignored stops are unchanged too; only the window, the displayed
  variance and the sample-rate bookkeeping change.
\<close>

theorem hysteresis_gap:
  assumes "magnitudeOf e = Some m"
    and "60 \<le> length (bufferRef (handleMotion e now s))"
    and "3 / 10 < windowVariance (bufferRef (handleMotion e now s))"
    and "windowVariance (bufferRef (handleMotion e now s)) < 5 / 10"
  shows "stateRef (handleMotion e now s) = stateRef s \<and>
         motionState (handleMotion e now s) = motionState s \<and>
         stateCounterRef (handleMotion e now s) = stateCounterRef s \<and>
         pendingStopRef (handleMotion e now s) = pendingStopRef s \<and>
         stopStartTimeRef (handleMotion e now s) = stopStartTimeRef s \<and>
         lastConfirmedStopRef (handleMotion e now s) = lastConfirmedStopRef s \<and>
         stopCountRef (handleMotion e now s) = stopCountRef s \<and>
         detectedStops (handleMotion e now s) = detectedStops s \<and>
         ignoredStops (handleMotion e now s) = ignoredStops s \<and>
         variance (handleMotion e now s) = windowVariance (bufferRef (handleMotion e now s))"
proof -
  have h: "handleMotion e now s = processSample m now s"
    using assms(1) by (simp add: handleMotion_magnitude)
  have b: "bufferRef (handleMotion e now s) = bufferRef (pushSample m now s)"
    by (simp add: h processSample_buffer)
  have "processSample m now s =
        (pushSample m now s)\<lparr>variance := windowVariance (bufferRef (pushSample m now s))\<rparr>"
    using assms(2-4) unfolding b
    by (intro processSample_gap) (simp_all add: WINDOW_SIZE_def STOP_THRESHOLD_def MOVE_THRESHOLD_def)
  then have "handleMotion e now s =
        (pushSample m now s)\<lparr>variance := windowVariance (bufferRef (pushSample m now s))\<rparr>"
    by (simp add: h)
  then show ?thesis
    by (simp add: pushSample_fields)
qed

lemma sqrt_sample_5: "sqrt (0\<^sup>2 + 0\<^sup>2 + 5\<^sup>2) = 5"
proof -
  have "sqrt (5\<^sup>2) = \<bar>5\<bar>"
    by (rule real_sqrt_abs)
  then show ?thesis by simp
qed

lemma window_one_five: "windowVariance (replicate 59 0 @ [5]) = 59 / 144"
  by code_simp

lemma push_five:
  "bufferRef (handleMotion (Some (Some 0, Some 0, Some 5)) 1000
     (initialMotion\<lparr>running := True, stateRef := moving, motionState := moving,
        stateCounterRef := 2, bufferRef := replicate 60 0\<rparr>)) = replicate 59 0 @ [5]"
proof -
  have "tl (replicate 60 (0::real) @ [5]) = replicate 59 0 @ [5]"
    by (simp add: numeral_eq_Suc)
  then show ?thesis
    using sqrt_sample_5
    by (simp add: processSample_buffer pushSample_buffer WINDOW_SIZE_def initialMotion_def
        del: replicate.simps replicate_Suc)
qed

theorem hysteresis_gap_witness:
  "magnitudeOf (Some (Some 0, Some 0, Some 5)) = Some 5 \<and>
   60 \<le> length (bufferRef (handleMotion (Some (Some 0, Some 0, Some 5)) 1000
     (initialMotion\<lparr>running := True, stateRef := moving, motionState := moving,
        stateCounterRef := 2, bufferRef := replicate 60 0\<rparr>))) \<and>
   3 / 10 < windowVariance (bufferRef (handleMotion (Some (Some 0, Some 0, Some 5)) 1000
     (initialMotion\<lparr>running := True, stateRef := moving, motionState := moving,
        stateCounterRef := 2, bufferRef := replicate 60 0\<rparr>))) \<and>
   windowVariance (bufferRef (handleMotion (Some (Some 0, Some 0, Some 5)) 1000
     (initialMotion\<lparr>running := True, stateRef := moving, motionState := moving,
        stateCounterRef := 2, bufferRef := replicate 60 0\<rparr>))) < 5 / 10 \<and>
   stateRef (handleMotion (Some (Some 0, Some 0, Some 5)) 1000
     (initialMotion\<lparr>running := True, stateRef := moving, motionState := moving,
        stateCounterRef := 2, bufferRef := replicate 60 0\<rparr>)) = moving \<and>
   variance (handleMotion (Some (Some 0, Some 0, Some 5)) 1000
     (initialMotion\<lparr>running := True, stateRef := moving, motionState := moving,
        stateCounterRef := 2, bufferRef := replicate 60 0\<rparr>)) = 59 / 144"
proof -
  have m: "magnitudeOf (Some (Some 0, Some 0, Some 5)) = Some 5"
    using sqrt_sample_5 by simp
  have l: "60 \<le> length (bufferRef (handleMotion (Some (Some 0, Some 0, Some 5)) 1000
     (initialMotion\<lparr>running := True, stateRef := moving, motionState := moving,
        stateCounterRef := 2, bufferRef := replicate 60 0\<rparr>)))"
    unfolding push_five by simp
  have v: "windowVariance (bufferRef (handleMotion (Some (Some 0, Some 0, Some 5)) 1000
     (initialMotion\<lparr>running := True, stateRef := moving, motionState := moving,
        stateCounterRef := 2, bufferRef := replicate 60 0\<rparr>))) = 59 / 144"
    unfolding push_five by (rule window_one_five)
  have lo: "3 / 10 < windowVariance (bufferRef (handleMotion (Some (Some 0, Some 0, Some 5)) 1000
     (initialMotion\<lparr>running := True, stateRef := moving, motionState := moving,
        stateCounterRef := 2, bufferRef := replicate 60 0\<rparr>)))"
    unfolding v by simp
  have hi: "windowVariance (bufferRef (handleMotion (Some (Some 0, Some 0, Some 5)) 1000
     (initialMotion\<lparr>running := True, stateRef := moving, motionState := moving,
        stateCounterRef := 2, bufferRef := replicate 60 0\<rparr>))) < 5 / 10"
    unfolding v by simp
  show ?thesis
    using hysteresis_gap [OF m l lo hi] m l lo hi v
    by (simp add: initialMotion_def)
qed

text \<open>
  The claim as stated has the counter of the other candidate state reset. Here the
  machine is \<open>moving\<close> and has counted two samples towards \<open>stopped\<close>; the window holds
  sixty zeros and the sample of magnitude 5 brings its variance to 59/144, inside the
  gap. The state stays \<open>moving\<close>, and the counter stays at 2. (Such a state arises when
  a moving vehicle comes to rest: with two samples of magnitude 4 left in a window of
  zeros the variance is above 0.5 and the counter is reset, with one left it is below 0.3
  and the counter goes to 1, with none left it is 0 and the counter goes to 2.)
\<close>

theorem hysteresis_reset_counterexample:
  "STOP_THRESHOLD < variance (handleMotion (Some (Some 0, Some 0, Some 5)) 1000
     (initialMotion\<lparr>running := True, stateRef := moving, motionState := moving,
        stateCounterRef := 2, bufferRef := replicate 60 0\<rparr>)) \<and>
   variance (handleMotion (Some (Some 0, Some 0, Some 5)) 1000
     (initialMotion\<lparr>running := True, stateRef := moving, motionState := moving,
        stateCounterRef := 2, bufferRef := replicate 60 0\<rparr>)) < MOVE_THRESHOLD \<and>
   stateRef (handleMotion (Some (Some 0, Some 0, Some 5)) 1000
     (initialMotion\<lparr>running := True, stateRef := moving, motionState := moving,
        stateCounterRef := 2, bufferRef := replicate 60 0\<rparr>)) = moving \<and>
   stateCounterRef (handleMotion (Some (Some 0, Some 0, Some 5)) 1000
     (initialMotion\<lparr>running := True, stateRef := moving, motionState := moving,
        stateCounterRef := 2, bufferRef := replicate 60 0\<rparr>)) = 2"
proof -
  have b: "bufferRef (pushSample 5 1000
     (initialMotion\<lparr>running := True, stateRef := moving, motionState := moving,
        stateCounterRef := 2, bufferRef := replicate 60 0\<rparr>)) = replicate 59 0 @ [5]"
    using push_five sqrt_sample_5 by (simp add: processSample_buffer)
  have "handleMotion (Some (Some 0, Some 0, Some 5)) 1000
     (initialMotion\<lparr>running := True, stateRef := moving, motionState := moving,
        stateCounterRef := 2, bufferRef := replicate 60 0\<rparr>) =
     (pushSample 5 1000
     (initialMotion\<lparr>running := True, stateRef := moving, motionState := moving,
        stateCounterRef := 2, bufferRef := replicate 60 0\<rparr>))\<lparr>variance := 59 / 144\<rparr>"
    using sqrt_sample_5
    by (simp add: processSample_def Let_def b window_one_five WINDOW_SIZE_def classify_gap
        STOP_THRESHOLD_def MOVE_THRESHOLD_def)
  then show ?thesis
    by (simp add: pushSample_fields initialMotion_def STOP_THRESHOLD_def MOVE_THRESHOLD_def)
qed

section \<open>Building the route\<close>

lemma findIndex_none: "findIndex P xs = -1 \<longleftrightarrow> (\<forall>x\<in>set xs. \<not> P x)"
  and findIndex_lower: "findIndex P xs \<ge> -1"
proof (induction xs)
  case Nil
  { case 1 show ?case by simp }
  { case 2 show ?case by simp }
next
  case (Cons x xs)
  { case 1 show ?case using Cons.IH by (auto simp add: Let_def) }
  { case 2 show ?case using Cons.IH by (auto simp add: Let_def) }
qed

lemma findIndex_found:
  "\<exists>x\<in>set xs. P x \<Longrightarrow>
   0 \<le> findIndex P xs \<and> nat (findIndex P xs) < length xs \<and> P (xs ! nat (findIndex P xs)) \<and>
   (\<forall>k < nat (findIndex P xs). \<not> P (xs ! k))"
proof (induction xs)
  case Nil
  then show ?case by simp
next
  case (Cons x xs)
  show ?case
  proof (cases "P x")
    case True
    then show ?thesis by simp
  next
    case False
    with Cons.prems have ex: "\<exists>x\<in>set xs. P x" by simp
    from Cons.IH [OF ex] have ih: "0 \<le> findIndex P xs" "nat (findIndex P xs) < length xs"
      "P (xs ! nat (findIndex P xs))" "\<forall>k < nat (findIndex P xs). \<not> P (xs ! k)"
      by simp_all
    have ne: "findIndex P xs \<noteq> -1" using ih(1) by simp
    have eq: "findIndex P (x # xs) = findIndex P xs + 1"
      using False ne by (simp add: Let_def)
    have n: "nat (findIndex P xs + 1) = Suc (nat (findIndex P xs))"
      using ih(1) by simp
    show ?thesis
      unfolding eq n using ih False
      by (auto simp add: nth_Cons split: nat.splits)
  qed
qed

lemma slice_inner:
  "i \<le> j \<Longrightarrow> j < length xs \<Longrightarrow> slice xs (int i) (int j + 1) = take (j - i + 1) (drop i xs)"
  by (simp add: slice_def Let_def min_def) (simp add: nat_diff_distrib' Suc_diff_le nat_add_distrib)

lemma take_drop_ends:
  assumes "i \<le> j" "j < length xs"
  shows "take (j - i + 1) (drop i xs) \<noteq> []"
    and "hd (take (j - i + 1) (drop i xs)) = xs ! i"
    and "last (take (j - i + 1) (drop i xs)) = xs ! j"
proof -
  let ?r = "take (j - i + 1) (drop i xs)"
  have len: "length ?r = j - i + 1"
    using assms by simp
  then show "?r \<noteq> []" by auto
  show "hd ?r = xs ! i"
    using assms by (simp add: hd_drop_conv_nth)
  have "last ?r = ?r ! (j - i)"
    using len by (simp add: last_conv_nth)
  also have "\<dots> = xs ! j"
    using assms by simp
  finally show "last ?r = xs ! j" .
qed

text \<open>
  Claim C7. Let the line's stations be the stations of the table on the chosen line, in
  table order. If the origin or the destination is not among them, the route is empty.
  If both are and they differ, then with \<open>i\<close> and \<open>j\<close> the positions of the first station
  carrying the origin's and the destination's id: the route is not empty, it starts with
  the origin station and ends with the destination station, and it is the stretch of the
  line from \<open>i\<close> to \<open>j\<close> in line order when the origin comes first, and the reversed stretch
  from \<open>j\<close> to \<open>i\<close> when the origin comes after the destination.
\<close>

theorem route_construction:
  "(oid \<notin> st_id ` set (filter (\<lambda>s. st_line s = lineId) stations) \<or>
    did \<notin> st_id ` set (filter (\<lambda>s. st_line s = lineId) stations) \<longrightarrow>
      getStationsOnRoute stations lineId oid did = []) \<and>
   (oid \<in> st_id ` set (filter (\<lambda>s. st_line s = lineId) stations) \<and>
    did \<in> st_id ` set (filter (\<lambda>s. st_line s = lineId) stations) \<and> oid \<noteq> did \<longrightarrow>
      (\<exists>i j. i < length (filter (\<lambda>s. st_line s = lineId) stations) \<and>
             j < length (filter (\<lambda>s. st_line s = lineId) stations) \<and> i \<noteq> j \<and>
             st_id (filter (\<lambda>s. st_line s = lineId) stations ! i) = oid \<and>
             (\<forall>k<i. st_id (filter (\<lambda>s. st_line s = lineId) stations ! k) \<noteq> oid) \<and>
             st_id (filter (\<lambda>s. st_line s = lineId) stations ! j) = did \<and>
             (\<forall>k<j. st_id (filter (\<lambda>s. st_line s = lineId) stations ! k) \<noteq> did) \<and>
             getStationsOnRoute stations lineId oid did \<noteq> [] \<and>
             hd (getStationsOnRoute stations lineId oid did) =
               filter (\<lambda>s. st_line s = lineId) stations ! i \<and>
             last (getStationsOnRoute stations lineId oid did) =
               filter (\<lambda>s. st_line s = lineId) stations ! j \<and>
             (i < j \<longrightarrow> getStationsOnRoute stations lineId oid did =
                 take (j - i + 1) (drop i (filter (\<lambda>s. st_line s = lineId) stations))) \<and>
             (j < i \<longrightarrow> getStationsOnRoute stations lineId oid did =
                 rev (take (i - j + 1) (drop j (filter (\<lambda>s. st_line s = lineId) stations))))))"
proof (intro conjI impI)
  let ?ls = "filter (\<lambda>s. st_line s = lineId) stations"
  let ?oi = "findIndex (\<lambda>s. st_id s = oid) ?ls"
  let ?di = "findIndex (\<lambda>s. st_id s = did) ?ls"
  {
    assume "oid \<notin> st_id ` set ?ls \<or> did \<notin> st_id ` set ?ls"
    then have "?oi = -1 \<or> ?di = -1"
      unfolding findIndex_none by blast
    then show "getStationsOnRoute stations lineId oid did = []"
      by (auto simp add: getStationsOnRoute_def Let_def)
  }
  {
    assume a: "oid \<in> st_id ` set ?ls \<and> did \<in> st_id ` set ?ls \<and> oid \<noteq> did"
    define i where "i = nat ?oi"
    define j where "j = nat ?di"
    have exo: "\<exists>x\<in>set ?ls. st_id x = oid" and exd: "\<exists>x\<in>set ?ls. st_id x = did"
      using a by auto
    from findIndex_found [of ?ls "\<lambda>s. st_id s = oid", OF exo]
    have o: "0 \<le> ?oi" "i < length ?ls" "st_id (?ls ! i) = oid" "\<forall>k<i. st_id (?ls ! k) \<noteq> oid"
      unfolding i_def by simp_all
    from findIndex_found [of ?ls "\<lambda>s. st_id s = did", OF exd]
    have d: "0 \<le> ?di" "j < length ?ls" "st_id (?ls ! j) = did" "\<forall>k<j. st_id (?ls ! k) \<noteq> did"
      unfolding j_def by simp_all
    have oi: "?oi = int i" and di: "?di = int j"
      using o(1) d(1) by (simp_all add: i_def j_def)
    have ne: "i \<noteq> j"
      using o(3) d(3) a by auto
    have r: "getStationsOnRoute stations lineId oid did =
        (if i < j then take (j - i + 1) (drop i ?ls) else rev (take (i - j + 1) (drop j ?ls)))"
    proof (cases "i < j")
      case True
      then show ?thesis
        using slice_inner [of i j ?ls] d(2)
        by (simp add: getStationsOnRoute_def Let_def oi di)
    next
      case False
      then have "j \<le> i" by simp
      then show ?thesis
        using slice_inner [of j i ?ls] o(2) False
        by (simp add: getStationsOnRoute_def Let_def oi di)
    qed
    have ends: "getStationsOnRoute stations lineId oid did \<noteq> [] \<and>
        hd (getStationsOnRoute stations lineId oid did) = ?ls ! i \<and>
        last (getStationsOnRoute stations lineId oid did) = ?ls ! j"
    proof (cases "i < j")
      case True
      then show ?thesis
        using take_drop_ends [of i j ?ls] d(2) by (simp add: r)
    next
      case False
      then have "j \<le> i" by simp
      from take_drop_ends [OF this o(2)] show ?thesis
        using False by (simp add: r hd_rev last_rev)
    qed
    show "\<exists>i j. i < length ?ls \<and> j < length ?ls \<and> i \<noteq> j \<and>
             st_id (?ls ! i) = oid \<and> (\<forall>k<i. st_id (?ls ! k) \<noteq> oid) \<and>
             st_id (?ls ! j) = did \<and> (\<forall>k<j. st_id (?ls ! k) \<noteq> did) \<and>
             getStationsOnRoute stations lineId oid did \<noteq> [] \<and>
             hd (getStationsOnRoute stations lineId oid did) = ?ls ! i \<and>
             last (getStationsOnRoute stations lineId oid did) = ?ls ! j \<and>
             (i < j \<longrightarrow> getStationsOnRoute stations lineId oid did =
                 take (j - i + 1) (drop i ?ls)) \<and>
             (j < i \<longrightarrow> getStationsOnRoute stations lineId oid did =
                 rev (take (i - j + 1) (drop j ?ls)))"
      using o(2-4) d(2-4) ne ends r by (intro exI [of _ i] exI [of _ j]) simp
  }
qed

theorem route_construction_witness:
  "''c'' \<in> st_id ` set (filter (\<lambda>s. st_line s = arl)
      [\<lparr>st_id = ''a'', st_name = ''Alpha'', st_line = arl, st_lat = 0, st_lng = 0\<rparr>,
       \<lparr>st_id = ''x'', st_name = ''Xray'', st_line = bts_silom, st_lat = 0, st_lng = 0\<rparr>,
       \<lparr>st_id = ''b'', st_name = ''Bravo'', st_line = arl, st_lat = 0, st_lng = 0\<rparr>,
       \<lparr>st_id = ''c'', st_name = ''Charlie'', st_line = arl, st_lat = 0, st_lng = 0\<rparr>]) \<and>
   ''a'' \<in> st_id ` set (filter (\<lambda>s. st_line s = arl)
      [\<lparr>st_id = ''a'', st_name = ''Alpha'', st_line = arl, st_lat = 0, st_lng = 0\<rparr>,
       \<lparr>st_id = ''x'', st_name = ''Xray'', st_line = bts_silom, st_lat = 0, st_lng = 0\<rparr>,
       \<lparr>st_id = ''b'', st_name = ''Bravo'', st_line = arl, st_lat = 0, st_lng = 0\<rparr>,
       \<lparr>st_id = ''c'', st_name = ''Charlie'', st_line = arl, st_lat = 0, st_lng = 0\<rparr>]) \<and>
   ''c'' \<noteq> ''a'' \<and> ''x'' \<notin> st_id ` set (filter (\<lambda>s. st_line s = arl)
      [\<lparr>st_id = ''a'', st_name = ''Alpha'', st_line = arl, st_lat = 0, st_lng = 0\<rparr>,
       \<lparr>st_id = ''x'', st_name = ''Xray'', st_line = bts_silom, st_lat = 0, st_lng = 0\<rparr>,
       \<lparr>st_id = ''b'', st_name = ''Bravo'', st_line = arl, st_lat = 0, st_lng = 0\<rparr>,
       \<lparr>st_id = ''c'', st_name = ''Charlie'', st_line = arl, st_lat = 0, st_lng = 0\<rparr>]) \<and>
   getStationsOnRoute
      [\<lparr>st_id = ''a'', st_name = ''Alpha'', st_line = arl, st_lat = 0, st_lng = 0\<rparr>,
       \<lparr>st_id = ''x'', st_name = ''Xray'', st_line = bts_silom, st_lat = 0, st_lng = 0\<rparr>,
       \<lparr>st_id = ''b'', st_name = ''Bravo'', st_line = arl, st_lat = 0, st_lng = 0\<rparr>,
       \<lparr>st_id = ''c'', st_name = ''Charlie'', st_line = arl, st_lat = 0, st_lng = 0\<rparr>]
      arl ''c'' ''a'' \<noteq> [] \<and>
   getStationsOnRoute
      [\<lparr>st_id = ''a'', st_name = ''Alpha'', st_line = arl, st_lat = 0, st_lng = 0\<rparr>,
       \<lparr>st_id = ''x'', st_name = ''Xray'', st_line = bts_silom, st_lat = 0, st_lng = 0\<rparr>,
       \<lparr>st_id = ''b'', st_name = ''Bravo'', st_line = arl, st_lat = 0, st_lng = 0\<rparr>,
       \<lparr>st_id = ''c'', st_name = ''Charlie'', st_line = arl, st_lat = 0, st_lng = 0\<rparr>]
      arl ''x'' ''a'' = []"
  using route_construction [of "''c''" arl
      "[\<lparr>st_id = ''a'', st_name = ''Alpha'', st_line = arl, st_lat = 0, st_lng = 0\<rparr>,
       \<lparr>st_id = ''x'', st_name = ''Xray'', st_line = bts_silom, st_lat = 0, st_lng = 0\<rparr>,
       \<lparr>st_id = ''b'', st_name = ''Bravo'', st_line = arl, st_lat = 0, st_lng = 0\<rparr>,
       \<lparr>st_id = ''c'', st_name = ''Charlie'', st_line = arl, st_lat = 0, st_lng = 0\<rparr>]" "''a''"]
    route_construction [of "''x''" arl
      "[\<lparr>st_id = ''a'', st_name = ''Alpha'', st_line = arl, st_lat = 0, st_lng = 0\<rparr>,
       \<lparr>st_id = ''x'', st_name = ''Xray'', st_line = bts_silom, st_lat = 0, st_lng = 0\<rparr>,
       \<lparr>st_id = ''b'', st_name = ''Bravo'', st_line = arl, st_lat = 0, st_lng = 0\<rparr>,
       \<lparr>st_id = ''c'', st_name = ''Charlie'', st_line = arl, st_lat = 0, st_lng = 0\<rparr>]" "''a''"]
  by auto

text \<open>A route against the order of the line, with a station of another line in the table.\<close>

lemma route_example_reversed:
  "map st_name (getStationsOnRoute
      [\<lparr>st_id = ''a'', st_name = ''Alpha'', st_line = arl, st_lat = 0, st_lng = 0\<rparr>,
       \<lparr>st_id = ''x'', st_name = ''Xray'', st_line = bts_silom, st_lat = 0, st_lng = 0\<rparr>,
       \<lparr>st_id = ''b'', st_name = ''Bravo'', st_line = arl, st_lat = 0, st_lng = 0\<rparr>,
       \<lparr>st_id = ''c'', st_name = ''Charlie'', st_line = arl, st_lat = 0, st_lng = 0\<rparr>]
      arl ''c'' ''a'') = [''Charlie'', ''Bravo'', ''Alpha'']"
  by (simp add: getStationsOnRoute_def slice_def Let_def)

section \<open>Audio detector: door chimes\<close>

lemma tick_high_inactive:
  "bandAverage lo hi fd > CHIME_THRESHOLD_DB \<Longrightarrow> \<not> chimeActiveRef s \<Longrightarrow>
   tick lo hi fd now s =
     s\<lparr>chimeLevel := bandAverage lo hi fd, chimeStartRef := now, chimeActiveRef := True\<rparr>"
  by (simp add: tick_def Let_def)

lemma tick_high_early:
  "bandAverage lo hi fd > CHIME_THRESHOLD_DB \<Longrightarrow> chimeActiveRef s \<Longrightarrow>
   now - chimeStartRef s < CHIME_MIN_DURATION_MS \<Longrightarrow>
   tick lo hi fd now s = s\<lparr>chimeLevel := bandAverage lo hi fd\<rparr>"
  by (simp add: tick_def Let_def)

lemma tick_high_due:
  "bandAverage lo hi fd > CHIME_THRESHOLD_DB \<Longrightarrow> chimeActiveRef s \<Longrightarrow>
   now - chimeStartRef s \<ge> CHIME_MIN_DURATION_MS \<Longrightarrow>
   tick lo hi fd now s =
     s\<lparr>chimeLevel := bandAverage lo hi fd, chimeDetected := True, chimeCount := chimeCount s + 1,
       eventLog := eventLog s @
         [\<lparr>ev_time = now, ev_source = chime,
           ev_detail = ChimeHit (chimeCount s + 1) (bandAverage lo hi fd)\<rparr>],
       chimeActiveRef := False, chimeTimers := chimeTimers s @ [now + 2000]\<rparr>"
  by (simp add: tick_def Let_def addEvent_def)

lemma tick_low:
  "\<not> bandAverage lo hi fd > CHIME_THRESHOLD_DB \<Longrightarrow>
   tick lo hi fd now s = s\<lparr>chimeLevel := bandAverage lo hi fd, chimeActiveRef := False\<rparr>"
  by (simp add: tick_def Let_def)

lemma audioRun_Nil: "audioRun lo hi [] s = s"
  and audioRun_Cons: "audioRun lo hi (e # es) s = audioRun lo hi es (audioStep lo hi e s)"
  and audioRun_append: "audioRun lo hi (es @ fs) s = audioRun lo hi fs (audioRun lo hi es s)"
  by (simp_all add: audioRun_def)

lemma sustained_activation:
  assumes "chimeActiveRef s" and "chimeStartRef s = t0"
    and "\<forall>(fd, t) \<in> set mids. bandAverage lo hi fd > -35 \<and> t - t0 < 500"
  shows "chimeActiveRef (audioRun lo hi (map (\<lambda>(fd, t). Frame fd t) mids) s) \<and>
         chimeStartRef (audioRun lo hi (map (\<lambda>(fd, t). Frame fd t) mids) s) = t0 \<and>
         chimeCount (audioRun lo hi (map (\<lambda>(fd, t). Frame fd t) mids) s) = chimeCount s \<and>
         eventLog (audioRun lo hi (map (\<lambda>(fd, t). Frame fd t) mids) s) = eventLog s"
  using assms
proof (induction mids arbitrary: s)
  case Nil
  then show ?case by (simp add: audioRun_Nil)
next
  case (Cons m mids)
  obtain fd t where m: "m = (fd, t)" by (cases m)
  have hi: "bandAverage lo hi fd > CHIME_THRESHOLD_DB" and early: "t - chimeStartRef s < CHIME_MIN_DURATION_MS"
    using Cons.prems m by (simp_all add: CHIME_THRESHOLD_DB_def CHIME_MIN_DURATION_MS_def)
  have step: "tick lo hi fd t s = s\<lparr>chimeLevel := bandAverage lo hi fd\<rparr>"
    using tick_high_early [OF hi Cons.prems(1) early] .
  have "chimeActiveRef (tick lo hi fd t s)" "chimeStartRef (tick lo hi fd t s) = t0"
    using Cons.prems by (simp_all add: step)
  from Cons.IH [OF this] Cons.prems(3)
  show ?case
    by (simp add: m audioRun_Cons step)
qed

text \<open>
  Claim C5. An activation starts at \<open>t0\<close>: the detector is inactive and the band level
  rises above -35 dBFS. While the level stays above the threshold and less than 500 ms
  have passed since \<open>t0\<close>, the detector stays active with \<open>activationStart = t0\<close> and emits
  nothing. If the level is then found at or below the threshold, the active flag is
  cleared and no chime event has been emitted. If instead the level is still above the
  threshold at a tick 500 ms or more after \<open>t0\<close>, exactly one chime event is emitted (the
  chime counter goes up by one, one entry is appended to the log) and the activation is
  over, the active flag being cleared.
\<close>

theorem chime_activation:
  assumes "\<not> chimeActiveRef s" and "bandAverage lo hi fd0 > -35"
    and "\<forall>(fd, t) \<in> set mids. bandAverage lo hi fd > -35 \<and> t - t0 < 500"
  shows "chimeActiveRef (audioRun lo hi (map (\<lambda>(fd, t). Frame fd t) ((fd0, t0) # mids)) s) \<and>
         chimeStartRef (audioRun lo hi (map (\<lambda>(fd, t). Frame fd t) ((fd0, t0) # mids)) s) = t0 \<and>
         chimeCount (audioRun lo hi (map (\<lambda>(fd, t). Frame fd t) ((fd0, t0) # mids)) s) = chimeCount s \<and>
         eventLog (audioRun lo hi (map (\<lambda>(fd, t). Frame fd t) ((fd0, t0) # mids)) s) = eventLog s \<and>
         (bandAverage lo hi fd \<le> -35 \<longrightarrow>
            \<not> chimeActiveRef (tick lo hi fd t
                (audioRun lo hi (map (\<lambda>(fd, t). Frame fd t) ((fd0, t0) # mids)) s)) \<and>
            chimeCount (tick lo hi fd t
                (audioRun lo hi (map (\<lambda>(fd, t). Frame fd t) ((fd0, t0) # mids)) s)) = chimeCount s \<and>
            eventLog (tick lo hi fd t
                (audioRun lo hi (map (\<lambda>(fd, t). Frame fd t) ((fd0, t0) # mids)) s)) = eventLog s) \<and>
         (bandAverage lo hi fd > -35 \<and> t - t0 \<ge> 500 \<longrightarrow>
            \<not> chimeActiveRef (tick lo hi fd t
                (audioRun lo hi (map (\<lambda>(fd, t). Frame fd t) ((fd0, t0) # mids)) s)) \<and>
            chimeCount (tick lo hi fd t
                (audioRun lo hi (map (\<lambda>(fd, t). Frame fd t) ((fd0, t0) # mids)) s)) = chimeCount s + 1 \<and>
            eventLog (tick lo hi fd t
                (audioRun lo hi (map (\<lambda>(fd, t). Frame fd t) ((fd0, t0) # mids)) s)) =
              eventLog s @ [\<lparr>ev_time = t, ev_source = chime,
                             ev_detail = ChimeHit (chimeCount s + 1) (bandAverage lo hi fd)\<rparr>])"
proof -
  let ?s0 = "tick lo hi fd0 t0 s"
  let ?s1 = "audioRun lo hi (map (\<lambda>(fd, t). Frame fd t) ((fd0, t0) # mids)) s"
  have hi0: "bandAverage lo hi fd0 > CHIME_THRESHOLD_DB"
    using assms(2) by (simp add: CHIME_THRESHOLD_DB_def)
  have s0: "?s0 = s\<lparr>chimeLevel := bandAverage lo hi fd0, chimeStartRef := t0, chimeActiveRef := True\<rparr>"
    using tick_high_inactive [OF hi0 assms(1)] .
  have run: "?s1 = audioRun lo hi (map (\<lambda>(fd, t). Frame fd t) mids) ?s0"
    by (simp add: audioRun_Cons)
  have "chimeActiveRef ?s0" "chimeStartRef ?s0 = t0"
    by (simp_all add: s0)
  from sustained_activation [OF this assms(3)]
  have s1: "chimeActiveRef ?s1" "chimeStartRef ?s1 = t0" "chimeCount ?s1 = chimeCount s"
    "eventLog ?s1 = eventLog s"
    unfolding run by (simp_all add: s0)
  have low: "bandAverage lo hi fd \<le> -35 \<longrightarrow>
      \<not> chimeActiveRef (tick lo hi fd t ?s1) \<and> chimeCount (tick lo hi fd t ?s1) = chimeCount s \<and>
      eventLog (tick lo hi fd t ?s1) = eventLog s"
  proof
    assume "bandAverage lo hi fd \<le> -35"
    then have "\<not> bandAverage lo hi fd > CHIME_THRESHOLD_DB"
      by (simp add: CHIME_THRESHOLD_DB_def)
    from tick_low [OF this, of t ?s1] show "\<not> chimeActiveRef (tick lo hi fd t ?s1) \<and>
      chimeCount (tick lo hi fd t ?s1) = chimeCount s \<and> eventLog (tick lo hi fd t ?s1) = eventLog s"
      using s1 by simp
  qed
  have due: "bandAverage lo hi fd > -35 \<and> t - t0 \<ge> 500 \<longrightarrow>
      \<not> chimeActiveRef (tick lo hi fd t ?s1) \<and> chimeCount (tick lo hi fd t ?s1) = chimeCount s + 1 \<and>
      eventLog (tick lo hi fd t ?s1) = eventLog s @ [\<lparr>ev_time = t, ev_source = chime,
                             ev_detail = ChimeHit (chimeCount s + 1) (bandAverage lo hi fd)\<rparr>]"
  proof
    assume a: "bandAverage lo hi fd > -35 \<and> t - t0 \<ge> 500"
    then have h: "bandAverage lo hi fd > CHIME_THRESHOLD_DB"
      and d: "t - chimeStartRef ?s1 \<ge> CHIME_MIN_DURATION_MS"
      using s1(2) by (simp_all add: CHIME_THRESHOLD_DB_def CHIME_MIN_DURATION_MS_def)
    from tick_high_due [OF h s1(1) d] show "\<not> chimeActiveRef (tick lo hi fd t ?s1) \<and>
      chimeCount (tick lo hi fd t ?s1) = chimeCount s + 1 \<and>
      eventLog (tick lo hi fd t ?s1) = eventLog s @ [\<lparr>ev_time = t, ev_source = chime,
                             ev_detail = ChimeHit (chimeCount s + 1) (bandAverage lo hi fd)\<rparr>]"
      using s1 by simp
  qed
  show ?thesis
    using s1 low due by blast
qed

lemma bandAverage_single: "bandAverage 0 0 [x] = x"
  by (simp add: bandAverage_def Let_def)

theorem chime_activation_witness:
  "\<not> chimeActiveRef initialAudio \<and> bandAverage 0 0 [-20] > -35 \<and>
   bandAverage 0 0 [-25] > -35 \<and> (10100 :: int) - 10000 < 500 \<and>
   bandAverage 0 0 [-30] > -35 \<and> (10400 :: int) - 10000 < 500 \<and>
   bandAverage 0 0 [-22] > -35 \<and> (10500::int) - 10000 \<ge> 500 \<and>
   chimeCount (tick 0 0 [-22] 10500 (audioRun 0 0
      (map (\<lambda>(fd, t). Frame fd t) (([-20], 10000) # [([-25], 10100), ([-30], 10400)]))
      initialAudio)) = 1 \<and>
   bandAverage 0 0 [-60] \<le> -35 \<and>
   chimeCount (tick 0 0 [-60] 10450 (audioRun 0 0
      (map (\<lambda>(fd, t). Frame fd t) (([-20], 10000) # [([-25], 10100), ([-30], 10400)]))
      initialAudio)) = 0 \<and>
   \<not> chimeActiveRef (tick 0 0 [-60] 10450 (audioRun 0 0
      (map (\<lambda>(fd, t). Frame fd t) (([-20], 10000) # [([-25], 10100), ([-30], 10400)]))
      initialAudio))"
proof -
  have a: "\<not> chimeActiveRef initialAudio"
    by (simp add: initialAudio_def)
  have b: "bandAverage 0 0 [-20] > -35"
    by (simp add: bandAverage_single)
  have c: "\<forall>(fd, t) \<in> set [([-25], 10100), ([-30], 10400 :: int)]. bandAverage 0 0 fd > -35 \<and> t - 10000 < 500"
    by (simp add: bandAverage_single)
  have z: "chimeCount initialAudio = 0"
    by (simp add: initialAudio_def)
  show ?thesis
    using chime_activation [OF a b c, of "[-22]" 10500] chime_activation [OF a b c, of "[-60]" 10450]
      a b c z
    by (simp add: bandAverage_single)
qed








lemma timerFired_display:
  "chimeTimers s = d # ds \<Longrightarrow> timerFired s = s\<lparr>chimeDetected := False, chimeTimers := ds\<rparr>"
  by (simp add: timerFired_def)




section \<open>Audio detector: matching station names\<close>

lemma startsWith_prefix: "startsWith t p \<longleftrightarrow> prefix p t"
  by (induction t p rule: startsWith.induct) auto

lemma includesStr_sublist: "includesStr t p \<longleftrightarrow> sublist p t"
proof (induction t)
  case Nil
  then show ?case by simp
next
  case (Cons c cs)
  then show ?case
    by (cases p) (simp_all add: startsWith_prefix sublist_Cons_right)
qed

lemma matchKeywords_iff:
  "matchKeywords lower kws \<longleftrightarrow> (\<exists>kw \<in> set kws. length kw \<ge> 4 \<and> includesStr lower kw)"
  by (induction kws) auto

lemma matchLoop_find: "matchLoop lower ss = List.find (stationMatches lower) ss"
  by (induction ss) (auto simp add: stationMatches_def matchKeywords_iff)

lemma sortLongestFirst_set: "set (sortLongestFirst ks) = set ks"
  by (simp add: sortLongestFirst_def)

lemma sortLongestFirst_sorted:
  "sorted (map (\<lambda>s. - int (length (sk_name s))) (sortLongestFirst ks))"
  by (simp add: sortLongestFirst_def)

text \<open>
  Claim C8, as amended. The matcher visits the stations in order of decreasing length of
  the full name (ties in list order). For each station in turn it tries the
  case-insensitive substring match of the fragment against the full name and then
  against each keyword of four or more characters of that same station, before it moves
  on to the next station. The first station that matches either way wins, and the
  result is null exactly when no station matches either way. So the station returned
  matches, and no station with a strictly longer name matches by name or by keyword.
\<close>

theorem match_policy:
  "matchStationInText text ks =
     List.find (stationMatches (toLowerCase text)) (sortLongestFirst ks) \<and>
   (matchStationInText text ks = None \<longleftrightarrow>
      (\<forall>s \<in> set ks. \<not> stationMatches (toLowerCase text) s)) \<and>
   (\<forall>s. matchStationInText text ks = Some s \<longrightarrow>
      s \<in> set ks \<and> stationMatches (toLowerCase text) s \<and>
      (\<forall>s' \<in> set ks. length (sk_name s') > length (sk_name s) \<longrightarrow>
         \<not> stationMatches (toLowerCase text) s'))"
proof -
  let ?P = "stationMatches (toLowerCase text)"
  let ?xs = "sortLongestFirst ks"
  let ?key = "\<lambda>s. - int (length (sk_name s))"
  have f: "matchStationInText text ks = List.find ?P ?xs"
    by (simp add: matchStationInText_def Let_def matchLoop_find)
  have n: "matchStationInText text ks = None \<longleftrightarrow> (\<forall>s \<in> set ks. \<not> ?P s)"
    unfolding f by (auto simp add: find_None_iff sortLongestFirst_set)
  have s: "\<forall>s. matchStationInText text ks = Some s \<longrightarrow>
      s \<in> set ks \<and> ?P s \<and> (\<forall>s' \<in> set ks. length (sk_name s') > length (sk_name s) \<longrightarrow> \<not> ?P s')"
  proof (intro allI impI)
    fix s
    assume "matchStationInText text ks = Some s"
    then have "List.find ?P ?xs = Some s"
      by (simp add: f)
    then obtain i where i: "i < length ?xs" "?P (?xs ! i)" "s = ?xs ! i" "\<forall>j<i. \<not> ?P (?xs ! j)"
      unfolding find_Some_iff by blast
    have mem: "s \<in> set ks"
      using i(1,3) sortLongestFirst_set [of ks] nth_mem [of i ?xs] by simp
    have longer: "\<not> ?P s'" if s': "s' \<in> set ks" "length (sk_name s') > length (sk_name s)" for s'
    proof -
      from s'(1) obtain j where j: "j < length ?xs" "?xs ! j = s'"
        using sortLongestFirst_set [of ks] by (metis in_set_conv_nth)
      have "j < i"
      proof (rule ccontr)
        assume "\<not> j < i"
        then have "i \<le> j" by simp
        then have "map ?key ?xs ! i \<le> map ?key ?xs ! j"
          using sortLongestFirst_sorted [of ks] j(1) by (simp add: sorted_iff_nth_mono del: nth_map)
        then have "?key (?xs ! i) \<le> ?key (?xs ! j)"
          using i(1) j(1) by simp
        then show False
          using s'(2) i(3) j(2) by simp
      qed
      then show ?thesis
        using i(4) j(2) by auto
    qed
    show "s \<in> set ks \<and> ?P s \<and> (\<forall>s' \<in> set ks. length (sk_name s') > length (sk_name s) \<longrightarrow> \<not> ?P s')"
      using mem i(2,3) longer by blast
  qed
  show ?thesis
    using f n s by blast
qed

text \<open>Two stations of the Blue Line and the keywords built for them.\<close>

lemma bang_keywords:
  "buildStationKeywords
     [\<lparr>st_id = ''BL10'', st_name = ''Bang Sue'', st_line = mrt_blue, st_lat = 0, st_lng = 0\<rparr>,
      \<lparr>st_id = ''BL04'', st_name = ''Bang Khun Non'', st_line = mrt_blue, st_lat = 0, st_lng = 0\<rparr>] =
   [\<lparr>sk_id = ''BL10'', sk_name = ''Bang Sue'', sk_keywords = [''bang'', ''sue'']\<rparr>,
    \<lparr>sk_id = ''BL04'', sk_name = ''Bang Khun Non'', sk_keywords = [''bang'', ''khun'', ''non'']\<rparr>]"
  by code_simp

text \<open>
  The claim as stated tries every full name before any keyword. The fragment contains
  the full name of Bang Sue and not that of Bang Khun Non; the matcher returns Bang Khun
  Non, whose name is longer and whose keyword \<open>bang\<close> occurs in the fragment.
\<close>

theorem full_name_first_counterexample:
  "matchStationInText ''Next station Bang Sue''
     [\<lparr>sk_id = ''BL10'', sk_name = ''Bang Sue'', sk_keywords = [''bang'', ''sue'']\<rparr>,
      \<lparr>sk_id = ''BL04'', sk_name = ''Bang Khun Non'', sk_keywords = [''bang'', ''khun'', ''non'']\<rparr>] =
     Some \<lparr>sk_id = ''BL04'', sk_name = ''Bang Khun Non'', sk_keywords = [''bang'', ''khun'', ''non'']\<rparr> \<and>
   includesStr (toLowerCase ''Next station Bang Sue'') (toLowerCase ''Bang Sue'') \<and>
   \<not> includesStr (toLowerCase ''Next station Bang Sue'') (toLowerCase ''Bang Khun Non'')"
  by code_simp

theorem match_policy_witness:
  "matchStationInText ''Next station Bang Sue''
     [\<lparr>sk_id = ''BL10'', sk_name = ''Bang Sue'', sk_keywords = [''bang'', ''sue'']\<rparr>,
      \<lparr>sk_id = ''BL04'', sk_name = ''Bang Khun Non'', sk_keywords = [''bang'', ''khun'', ''non'']\<rparr>] =
     Some \<lparr>sk_id = ''BL04'', sk_name = ''Bang Khun Non'', sk_keywords = [''bang'', ''khun'', ''non'']\<rparr> \<and>
   stationMatches (toLowerCase ''Next station Bang Sue'')
     \<lparr>sk_id = ''BL04'', sk_name = ''Bang Khun Non'', sk_keywords = [''bang'', ''khun'', ''non'']\<rparr>"
proof -
  have m: "matchStationInText ''Next station Bang Sue''
     [\<lparr>sk_id = ''BL10'', sk_name = ''Bang Sue'', sk_keywords = [''bang'', ''sue'']\<rparr>,
      \<lparr>sk_id = ''BL04'', sk_name = ''Bang Khun Non'', sk_keywords = [''bang'', ''khun'', ''non'']\<rparr>] =
     Some \<lparr>sk_id = ''BL04'', sk_name = ''Bang Khun Non'', sk_keywords = [''bang'', ''khun'', ''non'']\<rparr>"
    by code_simp
  show ?thesis
    using match_policy [of "''Next station Bang Sue''"
      "[\<lparr>sk_id = ''BL10'', sk_name = ''Bang Sue'', sk_keywords = [''bang'', ''sue'']\<rparr>,
      \<lparr>sk_id = ''BL04'', sk_name = ''Bang Khun Non'', sk_keywords = [''bang'', ''khun'', ''non'']\<rparr>]"] m
    by blast
qed

section \<open>Audio detector: each station is matched once\<close>

lemma onresult_speechInv:
  assumes "speechInv s" and "onresult r now s = Inr s'"
  shows "speechInv s'"
  using assms
  by (auto simp add: speechInv_def onresult_def Let_def addEvent_def split: if_splits option.splits)

lemma tick_speech:
  "speechMatches (tick lo hi fd now s) = speechMatches s"
  "matchedStationsRef (tick lo hi fd now s) = matchedStationsRef s"
  by (simp_all add: tick_def Let_def addEvent_def)

lemma timerFired_speech:
  "speechMatches (timerFired s) = speechMatches s"
  "matchedStationsRef (timerFired s) = matchedStationsRef s"
  by (simp_all add: timerFired_def split: list.split)

lemma audioStep_speechInv: "speechInv s \<Longrightarrow> speechInv (audioStep lo hi e s)"
proof (cases e)
  case (Frame fd now)
  assume "speechInv s"
  then show ?thesis by (simp add: Frame speechInv_def tick_speech)
next
  case Timeout
  assume "speechInv s"
  then show ?thesis by (simp add: Timeout speechInv_def timerFired_speech)
next
  case (SpeechResult r now)
  assume inv: "speechInv s"
  show ?thesis
  proof (cases "onresult r now s")
    case (Inl err)
    then show ?thesis using inv by (simp add: SpeechResult speechInv_def)
  next
    case (Inr s')
    from onresult_speechInv [OF inv this] show ?thesis by (simp add: SpeechResult Inr)
  qed
qed

lemma audioRun_speechInv: "speechInv s \<Longrightarrow> speechInv (audioRun lo hi es s)"
  by (induction es arbitrary: s) (simp_all add: audioRun_Nil audioRun_Cons audioStep_speechInv)

lemma handleStartAudio_speechInv:
  "originIdA s \<noteq> [] \<Longrightarrow> destinationIdA s \<noteq> [] \<Longrightarrow> originIdA s \<noteq> destinationIdA s \<Longrightarrow>
   speechInv (handleStartAudio stations supported mic now s)"
  by (simp add: handleStartAudio_def Let_def speechInv_def addEvent_def split: option.split)

text \<open>
  Claim C9. In a session, whatever sequence of speech results (and of chime ticks and
  timer callbacks) has been delivered, the list of speech matches holds each station id
  at most once, and it holds exactly the ids of the matched-station set. A speech result
  whose match is already in the set adds neither a speech match nor a log entry.
\<close>

theorem speech_idempotent:
  assumes "originIdA s0 \<noteq> []" and "destinationIdA s0 \<noteq> []" and "originIdA s0 \<noteq> destinationIdA s0"
  shows "distinct (speechMatches (audioRun lo hi es (handleStartAudio stations supported mic now0 s0))) \<and>
         set (speechMatches (audioRun lo hi es (handleStartAudio stations supported mic now0 s0))) =
           matchedStationsRef (audioRun lo hi es (handleStartAudio stations supported mic now0 s0)) \<and>
         (\<forall>r t m. r \<noteq> [] \<and>
            matchStationInText (last r)
              (stationKeywordsRef (audioRun lo hi es (handleStartAudio stations supported mic now0 s0))) = Some m \<and>
            sk_id m \<in> matchedStationsRef (audioRun lo hi es (handleStartAudio stations supported mic now0 s0)) \<longrightarrow>
            speechMatches (audioStep lo hi (SpeechResult r t)
              (audioRun lo hi es (handleStartAudio stations supported mic now0 s0))) =
            speechMatches (audioRun lo hi es (handleStartAudio stations supported mic now0 s0)) \<and>
            eventLog (audioStep lo hi (SpeechResult r t)
              (audioRun lo hi es (handleStartAudio stations supported mic now0 s0))) =
            eventLog (audioRun lo hi es (handleStartAudio stations supported mic now0 s0)))"
proof -
  let ?s = "audioRun lo hi es (handleStartAudio stations supported mic now0 s0)"
  have "speechInv ?s"
    using assms by (intro audioRun_speechInv handleStartAudio_speechInv)
  then have inv: "distinct (speechMatches ?s)" "set (speechMatches ?s) = matchedStationsRef ?s"
    by (simp_all add: speechInv_def)
  have rep: "\<forall>r t m. r \<noteq> [] \<and> matchStationInText (last r) (stationKeywordsRef ?s) = Some m \<and>
      sk_id m \<in> matchedStationsRef ?s \<longrightarrow>
      speechMatches (audioStep lo hi (SpeechResult r t) ?s) = speechMatches ?s \<and>
      eventLog (audioStep lo hi (SpeechResult r t) ?s) = eventLog ?s"
    by (simp add: onresult_def Let_def)
  show ?thesis
    using inv rep by blast
qed

theorem speech_idempotent_witness:
  "originIdA (initialAudio\<lparr>originIdA := ''BL10'', destinationIdA := ''BL04''\<rparr>) \<noteq> [] \<and>
   destinationIdA (initialAudio\<lparr>originIdA := ''BL10'', destinationIdA := ''BL04''\<rparr>) \<noteq> [] \<and>
   originIdA (initialAudio\<lparr>originIdA := ''BL10'', destinationIdA := ''BL04''\<rparr>) \<noteq>
     destinationIdA (initialAudio\<lparr>originIdA := ''BL10'', destinationIdA := ''BL04''\<rparr>) \<and>
   distinct (speechMatches (audioRun 0 0
     [SpeechResult [''next station bang sue''] 5, SpeechResult [''next station'', ''Bang Sue''] 9]
     (handleStartAudio
        [\<lparr>st_id = ''BL10'', st_name = ''Bang Sue'', st_line = mrt_blue, st_lat = 0, st_lng = 0\<rparr>,
         \<lparr>st_id = ''BL04'', st_name = ''Bang Khun Non'', st_line = mrt_blue, st_lat = 0, st_lng = 0\<rparr>]
        True None 1 (initialAudio\<lparr>originIdA := ''BL10'', destinationIdA := ''BL04''\<rparr>))))"
  using speech_idempotent [of "initialAudio\<lparr>originIdA := ''BL10'', destinationIdA := ''BL04''\<rparr>"
      0 0 "[SpeechResult [''next station bang sue''] 5, SpeechResult [''next station'', ''Bang Sue''] 9]"
      "[\<lparr>st_id = ''BL10'', st_name = ''Bang Sue'', st_line = mrt_blue, st_lat = 0, st_lng = 0\<rparr>,
         \<lparr>st_id = ''BL04'', st_name = ''Bang Khun Non'', st_line = mrt_blue, st_lat = 0, st_lng = 0\<rparr>]"
      True None 1]
  by (simp add: initialAudio_def)

text \<open>Two mentions in one session: the station is recorded once.\<close>

lemma repeated_mention:
  "speechMatches (audioRun 0 0
     [SpeechResult [''next station bang sue''] 5, SpeechResult [''next station'', ''Bang Sue''] 9]
     (handleStartAudio
        [\<lparr>st_id = ''BL10'', st_name = ''Bang Sue'', st_line = mrt_blue, st_lat = 0, st_lng = 0\<rparr>,
         \<lparr>st_id = ''BL04'', st_name = ''Bang Pho'', st_line = mrt_blue, st_lat = 0, st_lng = 0\<rparr>]
        True None 1 (initialAudio\<lparr>originIdA := ''BL10'', destinationIdA := ''BL04''\<rparr>))) = [''BL10'']"
  by code_simp

end
